theory Spec2Isabelle
  imports Main "HOL-Library.Word"
begin

section \<open>Strings\<close>

text \<open>
  A Go \<open>string\<close> is a sequence of bytes and \<open>len\<close> counts bytes; it is modelled as
  \<^typ>\<open>string\<close> (a list of 8-bit characters), so every length below is a byte length.
\<close>

definition is_digit :: "char \<Rightarrow> bool" where
  \<comment> \<open>\<open>c >= '0' && c <= '9'\<close>\<close>
  "is_digit c = (48 \<le> (of_char c :: nat) \<and> (of_char c :: nat) \<le> 57)"

definition TrimPrefix :: "string \<Rightarrow> string \<Rightarrow> string" where
  \<comment> \<open>\<open>strings.TrimPrefix\<close>: one leading occurrence of the prefix is removed.\<close>
  "TrimPrefix s p = (if take (length p) s = p then drop (length p) s else s)"

fun Split :: "string \<Rightarrow> char \<Rightarrow> string list" where
  \<comment> \<open>\<open>strings.Split\<close> with a one-byte separator; the empty string splits into one empty part.\<close>
  "Split [] sep = [[]]"
| "Split (c # cs) sep =
     (if c = sep then [] # Split cs sep
      else (case Split cs sep of [] \<Rightarrow> [[c]] | p # ps \<Rightarrow> (c # p) # ps))"

definition SplitN2 :: "string \<Rightarrow> char \<Rightarrow> string list" where
  \<comment> \<open>\<open>strings.SplitN(s, sep, 2)\<close>: split at the first separator only.\<close>
  "SplitN2 s sep =
     (if sep \<in> set s
      then [takeWhile (\<lambda>c. c \<noteq> sep) s, tl (dropWhile (\<lambda>c. c \<noteq> sep) s)]
      else [s])"

fun Itoa :: "nat \<Rightarrow> string" where
  \<comment> \<open>The verb \<open>%d\<close> of \<open>fmt.Sprintf\<close> on a non-negative number.\<close>
  "Itoa n =
     (if n < 10 then [''0123456789'' ! n]
      else Itoa (n div 10) @ [''0123456789'' ! (n mod 10)])"

declare Itoa.simps [simp del]

definition ascii_lower :: "char \<Rightarrow> char" where
  "ascii_lower c =
     (case map_of (zip ''ABCDEFGHIJKLMNOPQRSTUVWXYZ'' ''abcdefghijklmnopqrstuvwxyz'') c of
        None \<Rightarrow> c
      | Some l \<Rightarrow> l)"

definition ascii_space :: "char \<Rightarrow> bool" where
  "ascii_space c = (c \<in> set [CHR '' '', CHR 0x09, CHR 0x0A, CHR 0x0B, CHR 0x0C, CHR 0x0D])"

definition ascii_trim :: "string \<Rightarrow> string" where
  "ascii_trim s = rev (dropWhile ascii_space (rev (dropWhile ascii_space s)))"

definition ascii_atoi :: "string \<Rightarrow> int option" where
  \<comment> \<open>\<open>strconv.Atoi\<close>: one optional sign, then decimal digits and nothing else; a number
      outside the 64 bits of Go's \<open>int\<close> is an error, like a malformed one.\<close>
  "ascii_atoi s =
     (let signed = (s \<noteq> [] \<and> (hd s = CHR ''+'' \<or> hd s = CHR ''-''));
          digits = (if signed then tl s else s)
      in if digits \<noteq> [] \<and> list_all is_digit digits then
           (let n = int (foldl (\<lambda>n c. n * 10 + (of_char c - 48)) 0 digits);
                v = (if hd s = CHR ''-'' then - n else n)
            in if - (2 ^ 63) \<le> v \<and> v \<le> 2 ^ 63 - 1 then Some v else None)
         else None)"

section \<open>Version check\<close>

text \<open>
  \<open>parseVersion\<close> and \<open>isNewerVersion\<close> of the version handler. Go's \<open>int\<close> is a 64-bit
  two's complement number: the accumulator of a component is a \<^typ>\<open>64 word\<close>, read with
  \<^const>\<open>sint\<close> where the code compares. The loop over the runes of a part stops at the
  first rune that is not an ASCII digit; every byte of a multi-byte rune is above \<open>0x7F\<close>, so
  stopping at the first non-digit byte is the same.
\<close>

fun digits_loop :: "string \<Rightarrow> 64 word \<Rightarrow> 64 word" where
  "digits_loop [] n = n"
| "digits_loop (c # cs) n =
     (if is_digit c then digits_loop cs (n * 10 + of_nat (of_char c - 48)) else n)"

definition parseVersion :: "string \<Rightarrow> 64 word list" where
  "parseVersion v =
     (let parts = Split (TrimPrefix v ''v'') CHR ''.''
      in fold (\<lambda>i result. result[i := digits_loop (parts ! i) 0])
           [0 ..< min 3 (length parts)] [0, 0, 0])"

function compare_parts :: "64 word list \<Rightarrow> 64 word list \<Rightarrow> nat \<Rightarrow> bool" where
  "compare_parts latestParts currentParts i =
     (if i < 3 then
        (if sint (latestParts ! i) > sint (currentParts ! i) then True
         else if sint (latestParts ! i) < sint (currentParts ! i) then False
         else compare_parts latestParts currentParts (i + 1))
      else False)"
  by pat_completeness auto
termination
  by (relation "measure (\<lambda>(l, c, i). 3 - i)") auto

declare compare_parts.simps [simp del]

definition isNewerVersion :: "string \<Rightarrow> string \<Rightarrow> bool" where
  "isNewerVersion latest current =
     (if latest = ''unknown'' \<or> latest = '''' \<or> current = ''dev'' then False
      else compare_parts (parseVersion latest) (parseVersion current) 0)"

subsection \<open>The comparison as the specification words it\<close>

definition decimal_value :: "string \<Rightarrow> nat" where
  "decimal_value ds = foldl (\<lambda>n c. n * 10 + (of_char c - 48)) 0 ds"

definition component :: "string list \<Rightarrow> nat \<Rightarrow> int" where
  \<comment> \<open>The number a part starts with, as a 64-bit \<open>int\<close>; a missing part counts as 0.\<close>
  "component parts i =
     (if i < length parts
      then sint (word_of_nat (decimal_value (takeWhile is_digit (parts ! i))) :: 64 word)
      else 0)"

definition version_components :: "string \<Rightarrow> int \<times> int \<times> int" where
  "version_components v =
     (let parts = Split (TrimPrefix v ''v'') CHR ''.''
      in (component parts 0, component parts 1, component parts 2))"

definition version_greater :: "int \<times> int \<times> int \<Rightarrow> int \<times> int \<times> int \<Rightarrow> bool" where
  \<comment> \<open>Major, then minor, then patch.\<close>
  "version_greater a b =
     (case (a, b) of ((a1, a2, a3), (b1, b2, b3)) \<Rightarrow>
        a1 > b1 \<or> (a1 = b1 \<and> (a2 > b2 \<or> (a2 = b2 \<and> a3 > b3))))"

section \<open>Data model\<close>

subsection \<open>The export document\<close>

text \<open>
  The structs \<open>ExportData\<close>, \<open>ExportBody\<close>, \<open>ExportList\<close>, \<open>ExportSection\<close>, \<open>ExportItem\<close>,
  \<open>ExportTemplate\<close>, \<open>ExportTemplateItem\<close> and \<open>ExportHistory\<close>. Fields that several structs
  share by name (\<open>Name\<close>, \<open>Description\<close>, \<open>Items\<close>) carry the struct's initials.
\<close>

record ExportItem =
  ei_Name :: string
  ei_Description :: string
  ei_Completed :: bool
  ei_Uncertain :: bool

record ExportSection =
  es_Name :: string
  es_Items :: "ExportItem list"

record ExportList =
  el_Name :: string
  el_Icon :: string
  el_IsActive :: bool
  el_Sections :: "ExportSection list"

record ExportTemplateItem =
  eti_SectionName :: string
  eti_Name :: string
  eti_Description :: string

record ExportTemplate =
  et_Name :: string
  et_Description :: string
  et_Items :: "ExportTemplateItem list"

record ExportHistory =
  eh_Name :: string
  eh_LastSection :: string
  eh_UsageCount :: int

record ExportBody =
  Lists :: "ExportList list"
  Templates :: "ExportTemplate list"
  History :: "ExportHistory list"

record ExportData =
  Version :: string
  ExportedAt :: string
  App :: string
  Data :: ExportBody

subsection \<open>Responses\<close>

record ImportListInfo =
  info_Name :: string
  info_Icon :: string
  info_Sections :: nat
  info_Items :: nat
  info_HasConflict :: bool

record ImportPreviewResponse =
  Valid :: bool
  Error :: string
  Format :: string
  ListsCount :: nat
  ItemsCount :: nat
  TemplatesCount :: nat
  HistoryCount :: nat
  PreviewLists :: "ImportListInfo list"
  ConflictingLists :: "string list"

datatype resp_body =
    ErrorJson string \<comment> \<open>\<open>fiber.Map{"error": ...}\<close>\<close>
  | ApiError string string \<comment> \<open>\<open>ErrorResponse{Error, Message}\<close> of package \<open>api\<close>\<close>
  | PreviewJson ImportPreviewResponse
  | ImportJsonSummary nat nat nat nat nat
      \<comment> \<open>imported lists, items, templates, history; skipped lists\<close>
  | ImportCsvSummary nat nat nat nat
      \<comment> \<open>imported lists, items, history; skipped lists\<close>

datatype response = Response nat resp_body

datatype handled = Reply response | Next

subsection \<open>Limits\<close>

definition MaxItemNameLength :: nat where
  "MaxItemNameLength = 200"

definition MaxDescriptionLength :: nat where
  "MaxDescriptionLength = 500"

definition MaxSectionNameLength :: nat where
  "MaxSectionNameLength = 100"

definition MaxListNameLength :: nat where
  \<comment> \<open>Modelled from the spec: the declaration of this constant is not among the sources; the
      data model gives a list's display name at most 100 characters.\<close>
  "MaxListNameLength = 100"

definition default_icon :: string where
  \<comment> \<open>The ten bytes between the quotes of the literal in the source file (a shopping-cart
      emoji whose four UTF-8 bytes were re-encoded, one character each).\<close>
  "default_icon =
     [CHR 0xC3, CHR 0xB0, CHR 0xC5, CHR 0xB8, CHR 0xE2, CHR 0x80, CHR 0xBA, CHR 0xE2, CHR 0x80,
      CHR 0x99]"

subsection \<open>The store\<close>

record list_row =
  list_id :: int
  list_name :: string
  list_icon :: string
  list_is_active :: bool

record section_row =
  section_id :: int
  section_list_id :: int
  section_name :: string
  section_sort_order :: nat

record item_row =
  item_id :: int
  item_section_id :: int
  item_name :: string
  item_description :: string
  item_completed :: bool
  item_uncertain :: bool
  item_sort_order :: nat

record history_row =
  history_name :: string
  history_section_id :: "int option"
  history_usage_count :: int

record template_row =
  template_id :: int
  template_name :: string
  template_description :: string

record template_item_row =
  titem_template_id :: int
  titem_section_name :: string
  titem_name :: string
  titem_description :: string

text \<open>
  The tables the import transaction works on, with the counter of their auto-increment keys,
  and the whole database: those tables as committed, and the template tables, which the
  importer writes through the database handle.
\<close>

record tx_tables =
  list_rows :: "list_row list"
  section_rows :: "section_row list"
  item_rows :: "item_row list"
  history_rows :: "history_row list"
  next_id :: int

record database =
  tabs :: tx_tables
  template_rows :: "template_row list"
  template_item_rows :: "template_item_row list"
  next_template_id :: int

text \<open>
  What a handler holds while it imports: the open transaction, the database behind it, and
  the number of statements issued so far.
\<close>

record session =
  tx :: tx_tables
  db :: database
  calls :: nat

section \<open>Environment\<close>

text \<open>
  What the handlers use and the sources do not contain. \<open>ToLower\<close>, \<open>TrimSpace\<close> and \<open>Atoi\<close>
  are Go's \<open>strings.ToLower\<close>, \<open>strings.TrimSpace\<close> and \<open>strconv.Atoi\<close> (with \<open>None\<close> for its
  error); \<open>i18n_Get k\<close> is \<open>i18n.Get(i18n.GetDefaultLang(), k)\<close>; \<open>MaxIconLength\<close> is a
  constant declared elsewhere. \<open>begin_fails\<close>, \<open>commit_fails\<close> and \<open>lists_fail\<close> say whether
  \<open>db.DB.Begin\<close>, \<open>tx.Commit\<close> and \<open>db.GetAllLists\<close> return an error, and \<open>call_fails n\<close>
  whether the statement issued after \<open>n\<close> earlier ones does. Theorems that quantify over the
  environment hold for every such library function and every pattern of failures.
\<close>

record env =
  ToLower :: "string \<Rightarrow> string"
  TrimSpace :: "string \<Rightarrow> string"
  Atoi :: "string \<Rightarrow> int option"
  i18n_Get :: "string \<Rightarrow> string"
  MaxIconLength :: nat
  begin_fails :: bool
  commit_fails :: bool
  lists_fail :: bool
  call_fails :: "nat \<Rightarrow> bool"

definition ascii_env :: env where
  \<comment> \<open>The library functions on ASCII text, no translation loaded, no failure.\<close>
  "ascii_env =
     \<lparr>ToLower = map ascii_lower, TrimSpace = ascii_trim, Atoi = ascii_atoi,
      i18n_Get = (\<lambda>k. k), MaxIconLength = 64,
      begin_fails = False, commit_fails = False, lists_fail = False,
      call_fails = (\<lambda>n. False)\<rparr>"

section \<open>The database layer\<close>

text \<open>
  Package \<open>db\<close> is not among the sources. Its calls are modelled from their call sites and
  from the store the specification assumes (an ordinary relational store with auto-increment
  keys and a \<open>sort_order\<close> column, where deleting a list cascades to its sections and items).
  A call made with the transaction works on \<^const>\<open>tx\<close>; a call made without it works on
  \<^const>\<open>db\<close> and is committed at once. A call that fails changes nothing.
\<close>

definition tick :: "session \<Rightarrow> session" where
  "tick s = s\<lparr>calls := calls s + 1\<rparr>"

definition Begin :: "database \<Rightarrow> session" where
  \<comment> \<open>Modelled from the spec: \<open>db.DB.Begin\<close>, when it succeeds.\<close>
  "Begin d = \<lparr>tx = tabs d, db = d, calls = 0\<rparr>"

definition Commit :: "session \<Rightarrow> database" where
  \<comment> \<open>Modelled from the spec: \<open>tx.Commit\<close>, when it succeeds, publishes the transaction.\<close>
  "Commit s = (db s)\<lparr>tabs := tx s\<rparr>"

definition Rollback :: "session \<Rightarrow> database" where
  \<comment> \<open>Modelled from the spec: the deferred \<open>tx.Rollback\<close> drops the transaction.\<close>
  "Rollback s = db s"

definition GetAllLists :: "env \<Rightarrow> database \<Rightarrow> list_row list option" where
  \<comment> \<open>Modelled from the spec: \<open>db.GetAllLists\<close> reads the committed lists; \<open>None\<close> is its
      error, which comes with no rows.\<close>
  "GetAllLists E d = (if lists_fail E then None else Some (list_rows (tabs d)))"

definition existingLists :: "env \<Rightarrow> database \<Rightarrow> list_row list" where
  \<comment> \<open>\<open>existingLists, _ := db.GetAllLists()\<close>: the handlers drop the error, and go on with
      the nil slice of a failed read.\<close>
  "existingLists E d = (case GetAllLists E d of None \<Rightarrow> [] | Some rows \<Rightarrow> rows)"

definition CreateListTx :: "env \<Rightarrow> session \<Rightarrow> string \<Rightarrow> string \<Rightarrow> list_row option \<times> session" where
  \<comment> \<open>Modelled from the spec: \<open>db.CreateListTx(tx, name, icon)\<close>.\<close>
  "CreateListTx E s name icon =
     (if call_fails E (calls s) then (None, tick s)
      else
        (let row = \<lparr>list_id = next_id (tx s), list_name = name, list_icon = icon,
                    list_is_active = False\<rparr>
         in (Some row,
             tick (s\<lparr>tx := (tx s)\<lparr>list_rows := list_rows (tx s) @ [row],
                                  next_id := next_id (tx s) + 1\<rparr>\<rparr>))))"

definition CreateSectionForListTx ::
  "env \<Rightarrow> session \<Rightarrow> int \<Rightarrow> string \<Rightarrow> nat \<Rightarrow> section_row option \<times> session" where
  \<comment> \<open>Modelled from the spec: \<open>db.CreateSectionForListTx(tx, listID, name, order)\<close>.\<close>
  "CreateSectionForListTx E s listID name sortOrder =
     (if call_fails E (calls s) then (None, tick s)
      else
        (let row = \<lparr>section_id = next_id (tx s), section_list_id = listID,
                    section_name = name, section_sort_order = sortOrder\<rparr>
         in (Some row,
             tick (s\<lparr>tx := (tx s)\<lparr>section_rows := section_rows (tx s) @ [row],
                                  next_id := next_id (tx s) + 1\<rparr>\<rparr>))))"

definition CreateItemTx ::
  "env \<Rightarrow> session \<Rightarrow> int \<Rightarrow> string \<Rightarrow> string \<Rightarrow> nat \<Rightarrow> item_row option \<times> session" where
  \<comment> \<open>Modelled from the spec: \<open>db.CreateItemTx(tx, sectionID, name, description, order)\<close>.\<close>
  "CreateItemTx E s sectionID name description sortOrder =
     (if call_fails E (calls s) then (None, tick s)
      else
        (let row = \<lparr>item_id = next_id (tx s), item_section_id = sectionID, item_name = name,
                    item_description = description, item_completed = False,
                    item_uncertain = False, item_sort_order = sortOrder\<rparr>
         in (Some row,
             tick (s\<lparr>tx := (tx s)\<lparr>item_rows := item_rows (tx s) @ [row],
                                  next_id := next_id (tx s) + 1\<rparr>\<rparr>))))"

definition delete_list :: "int \<Rightarrow> tx_tables \<Rightarrow> tx_tables" where
  "delete_list i t =
     (let gone = map section_id (filter (\<lambda>r. section_list_id r = i) (section_rows t))
      in t\<lparr>list_rows := filter (\<lambda>r. list_id r \<noteq> i) (list_rows t),
           section_rows := filter (\<lambda>r. section_list_id r \<noteq> i) (section_rows t),
           item_rows := filter (\<lambda>r. item_section_id r \<notin> set gone) (item_rows t)\<rparr>)"

definition Exec_delete_list :: "env \<Rightarrow> session \<Rightarrow> int \<Rightarrow> bool \<times> session" where
  \<comment> \<open>\<open>tx.Exec("DELETE FROM lists WHERE id = ?", id)\<close>; the flag is \<open>err == nil\<close>.\<close>
  "Exec_delete_list E s i =
     (if call_fails E (calls s) then (False, tick s)
      else (True, tick (s\<lparr>tx := delete_list i (tx s)\<rparr>)))"

definition Exec_set_list_active :: "env \<Rightarrow> session \<Rightarrow> int \<Rightarrow> session" where
  \<comment> \<open>\<open>tx.Exec("UPDATE lists SET is_active = TRUE WHERE id = ?", id)\<close>, its error dropped.\<close>
  "Exec_set_list_active E s i =
     (if call_fails E (calls s) then tick s
      else tick (s\<lparr>tx := (tx s)\<lparr>list_rows :=
              map (\<lambda>r. if list_id r = i then r\<lparr>list_is_active := True\<rparr> else r)
                (list_rows (tx s))\<rparr>\<rparr>))"

definition Exec_set_item_completed :: "env \<Rightarrow> session \<Rightarrow> int \<Rightarrow> session" where
  \<comment> \<open>\<open>tx.Exec("UPDATE items SET completed = TRUE WHERE id = ?", id)\<close>, its error dropped.\<close>
  "Exec_set_item_completed E s i =
     (if call_fails E (calls s) then tick s
      else tick (s\<lparr>tx := (tx s)\<lparr>item_rows :=
              map (\<lambda>r. if item_id r = i then r\<lparr>item_completed := True\<rparr> else r)
                (item_rows (tx s))\<rparr>\<rparr>))"

definition Exec_set_item_uncertain :: "env \<Rightarrow> session \<Rightarrow> int \<Rightarrow> session" where
  \<comment> \<open>\<open>tx.Exec("UPDATE items SET uncertain = TRUE WHERE id = ?", id)\<close>, its error dropped.\<close>
  "Exec_set_item_uncertain E s i =
     (if call_fails E (calls s) then tick s
      else tick (s\<lparr>tx := (tx s)\<lparr>item_rows :=
              map (\<lambda>r. if item_id r = i then r\<lparr>item_uncertain := True\<rparr> else r)
                (item_rows (tx s))\<rparr>\<rparr>))"

definition CreateTemplate :: "env \<Rightarrow> session \<Rightarrow> string \<Rightarrow> string \<Rightarrow> template_row option \<times> session" where
  \<comment> \<open>Modelled from the spec: \<open>db.CreateTemplate(name, description)\<close>. It takes no
      transaction: the row goes to the database itself.\<close>
  "CreateTemplate E s name description =
     (if call_fails E (calls s) then (None, tick s)
      else
        (let row = \<lparr>template_id = next_template_id (db s), template_name = name,
                    template_description = description\<rparr>
         in (Some row,
             tick (s\<lparr>db := (db s)\<lparr>template_rows := template_rows (db s) @ [row],
                                  next_template_id := next_template_id (db s) + 1\<rparr>\<rparr>))))"

definition AddTemplateItem :: "env \<Rightarrow> session \<Rightarrow> int \<Rightarrow> string \<Rightarrow> string \<Rightarrow> string \<Rightarrow> session" where
  \<comment> \<open>Modelled from the spec: \<open>db.AddTemplateItem(templateID, sectionName, name, description)\<close>,
      also without the transaction; the caller drops what it returns.\<close>
  "AddTemplateItem E s templateID sectionName name description =
     (if call_fails E (calls s) then tick s
      else tick (s\<lparr>db := (db s)\<lparr>template_item_rows := template_item_rows (db s) @
              [\<lparr>titem_template_id = templateID, titem_section_name = sectionName,
                titem_name = name, titem_description = description\<rparr>]\<rparr>\<rparr>))"

definition GetSectionIDByNameTx :: "session \<Rightarrow> string \<Rightarrow> int option" where
  \<comment> \<open>Modelled from the spec: \<open>db.GetSectionIDByNameTx(tx, name)\<close>, the nullable reference to
      a section of that name.\<close>
  "GetSectionIDByNameTx s name =
     map_option section_id (find (\<lambda>r. section_name r = name) (section_rows (tx s)))"

definition SaveItemHistoryWithCountTx ::
  "env \<Rightarrow> session \<Rightarrow> string \<Rightarrow> int option \<Rightarrow> int \<Rightarrow> bool \<times> session" where
  \<comment> \<open>Modelled from the spec: \<open>db.SaveItemHistoryWithCountTx(tx, name, sectionID, count)\<close>;
      the flag is \<open>err == nil\<close>.\<close>
  "SaveItemHistoryWithCountTx E s name sectionID usageCount =
     (if call_fails E (calls s) then (False, tick s)
      else (True, tick (s\<lparr>tx := (tx s)\<lparr>history_rows := history_rows (tx s) @
              [\<lparr>history_name = name, history_section_id = sectionID,
                history_usage_count = usageCount\<rparr>]\<rparr>\<rparr>)))"

section \<open>Token gate\<close>

definition TokenAuthMiddleware :: "env \<Rightarrow> string \<Rightarrow> string \<Rightarrow> handled" where
  \<comment> \<open>\<open>expectedToken\<close> is what \<open>os.Getenv("API_TOKEN")\<close> returns (empty when unset),
      \<open>authHeader\<close> the request's \<open>Authorization\<close> header.\<close>
  "TokenAuthMiddleware E expectedToken authHeader =
     (if expectedToken = '''' then
        Reply (Response 503 (ApiError ''api_disabled'' ''API is not enabled on this server''))
      else if authHeader = '''' then
        Reply (Response 401 (ApiError ''missing_token'' ''Authorization header is required''))
      else
        (let parts = SplitN2 authHeader CHR '' ''
         in if length parts \<noteq> 2 \<or> ToLower E (parts ! 0) \<noteq> ''bearer'' then
              Reply (Response 401 (ApiError ''invalid_format''
                ''Authorization header must be in format: Bearer <token>''))
            else if parts ! 1 \<noteq> expectedToken then
              Reply (Response 401 (ApiError ''invalid_token'' ''Invalid API token''))
            else Next))"

section \<open>Conflict resolver\<close>

definition plain_candidate :: "string \<Rightarrow> string \<Rightarrow> string" where
  \<comment> \<open>\<open>fmt.Sprintf("%s (%s)", baseName, suffix)\<close>\<close>
  "plain_candidate baseName suffix = baseName @ '' ('' @ suffix @ '')''"

definition numbered_candidate :: "string \<Rightarrow> string \<Rightarrow> nat \<Rightarrow> string" where
  \<comment> \<open>\<open>fmt.Sprintf("%s (%s %d)", baseName, suffix, i)\<close>\<close>
  "numbered_candidate baseName suffix i = baseName @ '' ('' @ suffix @ '' '' @ Itoa i @ '')''"

function numbered_loop ::
  "env \<Rightarrow> string \<Rightarrow> string \<Rightarrow> (string \<rightharpoonup> int) \<Rightarrow> nat \<Rightarrow> string \<times> (string \<rightharpoonup> int)" where
  "numbered_loop E baseName suffix existingNames i =
     (if i \<le> 100 then
        (let candidateName = numbered_candidate baseName suffix i;
             candidateKey = ToLower E candidateName
         in if existingNames candidateKey = None
            then (candidateName, existingNames(candidateKey \<mapsto> -1))
            else numbered_loop E baseName suffix existingNames (i + 1))
      else (numbered_candidate baseName suffix 9999, existingNames))"
  by pat_completeness auto
termination
  by (relation "measure (\<lambda>(E, b, s, m, i). 101 - i)") auto

declare numbered_loop.simps [simp del]

definition findUniqueName ::
  "env \<Rightarrow> string \<Rightarrow> string \<Rightarrow> (string \<rightharpoonup> int) \<Rightarrow> string \<times> (string \<rightharpoonup> int)" where
  \<comment> \<open>The name returned, and the lookup table as the call leaves it.\<close>
  "findUniqueName E baseName suffix existingNames =
     (let candidateName = plain_candidate baseName suffix;
          candidateKey = ToLower E candidateName
      in if existingNames candidateKey = None
         then (candidateName, existingNames(candidateKey \<mapsto> -1))
         else numbered_loop E baseName suffix existingNames 2)"

subsection \<open>The resolver as the specification words it\<close>

definition candidates :: "string \<Rightarrow> string \<Rightarrow> string list" where
  \<comment> \<open>The names tried, in order: the plain one, then the numbered ones from 2.\<close>
  "candidates baseName suffix =
     plain_candidate baseName suffix # map (numbered_candidate baseName suffix) [2 ..< 101]"

definition first_free_name ::
  "env \<Rightarrow> string \<Rightarrow> string \<Rightarrow> (string \<rightharpoonup> int) \<Rightarrow> string \<times> (string \<rightharpoonup> int)" where
  "first_free_name E baseName suffix existingNames =
     (case find (\<lambda>c. existingNames (ToLower E c) = None) (candidates baseName suffix) of
        Some c \<Rightarrow> (c, existingNames(ToLower E c \<mapsto> -1))
      | None \<Rightarrow> (numbered_candidate baseName suffix 9999, existingNames))"

definition existing_names :: "env \<Rightarrow> list_row list \<Rightarrow> (string \<rightharpoonup> int)" where
  \<comment> \<open>\<open>for _, list := range existingLists { existingNames[strings.ToLower(list.Name)] = list.ID }\<close>\<close>
  "existing_names E rows =
     foldl (\<lambda>m l. m(ToLower E (list_name l) \<mapsto> list_id l)) Map.empty rows"

section \<open>Import preview of a JSON document\<close>

definition invalid_preview :: "string \<Rightarrow> response" where
  \<comment> \<open>\<open>c.Status(400).JSON(ImportPreviewResponse{Valid: false, Error: msg})\<close>\<close>
  "invalid_preview msg =
     Response 400 (PreviewJson
       \<lparr>Valid = False, Error = msg, Format = '''', ListsCount = 0, ItemsCount = 0,
        TemplatesCount = 0, HistoryCount = 0, PreviewLists = [], ConflictingLists = []\<rparr>)"

fun preview_items :: "string \<Rightarrow> ExportItem list \<Rightarrow> string option" where
  \<comment> \<open>The inner loop: the error text of the first item that is refused.\<close>
  "preview_items listName [] = None"
| "preview_items listName (item # rest) =
     (if length (ei_Name item) > MaxItemNameLength then
        Some (''Item name too long in list '' @ [CHR 0x27] @ listName @ [CHR 0x27] @ '': ''
              @ ei_Name item)
      else if length (ei_Description item) > MaxDescriptionLength then
        Some (''Item description too long in list '' @ [CHR 0x27] @ listName @ [CHR 0x27]
              @ '', item '' @ [CHR 0x27] @ ei_Name item @ [CHR 0x27])
      else preview_items listName rest)"

fun preview_sections :: "string \<Rightarrow> ExportSection list \<Rightarrow> nat \<Rightarrow> string + nat" where
  \<comment> \<open>The loop over a list's sections: an error text, or the list's item count.\<close>
  "preview_sections listName [] itemCount = Inr itemCount"
| "preview_sections listName (section # rest) itemCount =
     (if length (es_Name section) > MaxSectionNameLength then
        Inl (''Section name too long in list '' @ [CHR 0x27] @ listName @ [CHR 0x27] @ '': ''
             @ es_Name section)
      else
        (case preview_items listName (es_Items section) of
           Some msg \<Rightarrow> Inl msg
         | None \<Rightarrow> preview_sections listName rest (itemCount + length (es_Items section))))"

fun preview_lists ::
  "env \<Rightarrow> (string \<Rightarrow> bool) \<Rightarrow> ImportPreviewResponse \<Rightarrow> ExportList list
     \<Rightarrow> string + ImportPreviewResponse" where
  "preview_lists E existingNames preview [] = Inr preview"
| "preview_lists E existingNames preview (list # rest) =
     (if length (el_Name list) > MaxListNameLength then
        Inl (''List name too long: '' @ el_Name list)
      else if el_Name list = ''[HISTORY]'' then
        Inl (i18n_Get E ''common.reserved_name'')
      else
        (case preview_sections (el_Name list) (el_Sections list) 0 of
           Inl msg \<Rightarrow> Inl msg
         | Inr itemCount \<Rightarrow>
             (let hasConflict = existingNames (ToLower E (el_Name list))
              in preview_lists E existingNames
                   (preview\<lparr>ConflictingLists :=
                        (if hasConflict then ConflictingLists preview @ [el_Name list]
                         else ConflictingLists preview),
                      PreviewLists := PreviewLists preview @
                        [\<lparr>info_Name = el_Name list, info_Icon = el_Icon list,
                          info_Sections = length (el_Sections list), info_Items = itemCount,
                          info_HasConflict = hasConflict\<rparr>],
                      ItemsCount := ItemsCount preview + itemCount\<rparr>)
                   rest)))"

definition previewJSONImport :: "env \<Rightarrow> database \<Rightarrow> string + ExportData \<Rightarrow> response" where
  \<comment> \<open>\<open>decoded\<close> is what \<open>decodeJSON(data)\<close> returns: the error's text or the document. The
      preview only reads the database, so it returns a response and no new store.\<close>
  "previewJSONImport E d decoded =
     (case decoded of
        Inl err \<Rightarrow> invalid_preview (''Invalid JSON format: '' @ err)
      | Inr exportData \<Rightarrow>
          if App exportData \<noteq> ''koffan'' \<and> App exportData \<noteq> '''' then
            invalid_preview ''This file was not exported from Koffan''
          else
            (let existingNames =
                   foldl (\<lambda>m l. m(ToLower E (list_name l) := True)) (\<lambda>k. False) (existingLists E d);
                 preview =
                   \<lparr>Valid = True, Error = '''', Format = ''json'',
                    ListsCount = length (Lists (Data exportData)), ItemsCount = 0,
                    TemplatesCount = length (Templates (Data exportData)),
                    HistoryCount = length (History (Data exportData)),
                    PreviewLists = [], ConflictingLists = []\<rparr>
             in case preview_lists E existingNames preview (Lists (Data exportData)) of
                  Inl msg \<Rightarrow> invalid_preview msg
                | Inr p \<Rightarrow> Response 200 (PreviewJson p)))"

section \<open>Import of a JSON document\<close>

text \<open>
  The local variables both importers keep while they walk the upload, and the ones each adds.
\<close>

record import_vars =
  sess :: session
  existingNames :: "string \<rightharpoonup> int"
  importedLists :: nat
  importedItems :: nat
  importedHistory :: nat
  skippedLists :: nat

record json_vars = import_vars +
  importedTemplates :: nat

definition import_item :: "env \<Rightarrow> int \<Rightarrow> session \<times> nat \<times> nat \<Rightarrow> ExportItem \<Rightarrow> session \<times> nat \<times> nat" where
  \<comment> \<open>The body of the loop over a section's items, on the transaction, \<open>itemOrder\<close> and
      \<open>importedItems\<close>.\<close>
  "import_item E sectionID st exportItem =
     (case st of (s, itemOrder, imported) \<Rightarrow>
        (let itemName =
               (if length (ei_Name exportItem) > MaxItemNameLength
                then take MaxItemNameLength (ei_Name exportItem) else ei_Name exportItem);
             itemDesc =
               (if length (ei_Description exportItem) > MaxDescriptionLength
                then take MaxDescriptionLength (ei_Description exportItem)
                else ei_Description exportItem)
         in case CreateItemTx E s sectionID itemName itemDesc itemOrder of
              (None, s1) \<Rightarrow> (s1, itemOrder, imported)
            | (Some item, s1) \<Rightarrow>
                (let s2 = (if ei_Completed exportItem
                           then Exec_set_item_completed E s1 (item_id item) else s1);
                     s3 = (if ei_Uncertain exportItem
                           then Exec_set_item_uncertain E s2 (item_id item) else s2)
                 in (s3, itemOrder + 1, imported + 1))))"

definition import_section ::
  "env \<Rightarrow> int \<Rightarrow> session \<times> nat \<times> nat \<Rightarrow> ExportSection \<Rightarrow> session \<times> nat \<times> nat" where
  \<comment> \<open>The body of the loop over a list's sections, on the transaction, \<open>sectionOrder\<close> and
      \<open>importedItems\<close>.\<close>
  "import_section E listID st exportSection =
     (case st of (s, sectionOrder, imported) \<Rightarrow>
        (let sectionName =
               (if length (es_Name exportSection) > MaxSectionNameLength
                then take MaxSectionNameLength (es_Name exportSection)
                else es_Name exportSection)
         in case CreateSectionForListTx E s listID sectionName sectionOrder of
              (None, s1) \<Rightarrow> (s1, sectionOrder, imported)
            | (Some section, s1) \<Rightarrow>
                (case foldl (import_item E (section_id section)) (s1, 0, imported)
                        (es_Items exportSection) of
                   (s2, itemOrder, imported') \<Rightarrow> (s2, sectionOrder + 1, imported'))))"

definition create_list :: "env \<Rightarrow> json_vars \<Rightarrow> string \<Rightarrow> ExportList \<Rightarrow> json_vars" where
  \<comment> \<open>The rest of the loop body once the name is settled: the list, then its sections.\<close>
  "create_list E v name exportList =
     (case CreateListTx E (sess v) name (el_Icon exportList) of
        (None, s1) \<Rightarrow> v\<lparr>sess := s1\<rparr>
      | (Some list, s1) \<Rightarrow>
          (let s2 = (if el_IsActive exportList
                     then Exec_set_list_active E s1 (list_id list) else s1)
           in case foldl (import_section E (list_id list)) (s2, 0, importedItems v)
                     (el_Sections exportList) of
                (s3, sectionOrder, imported) \<Rightarrow>
                  v\<lparr>sess := s3, importedLists := importedLists v + 1,
                    importedItems := imported\<rparr>))"

definition import_list :: "env \<Rightarrow> string \<Rightarrow> string \<Rightarrow> json_vars \<Rightarrow> ExportList \<Rightarrow> json_vars" where
  \<comment> \<open>The body of the loop over the uploaded lists.\<close>
  "import_list E conflictResolution copySuffix v exportList =
     (if el_Name exportList = ''[HISTORY]'' then v\<lparr>skippedLists := skippedLists v + 1\<rparr>
      else if length (el_Name exportList) > MaxListNameLength then v
      else
        (case existingNames v (ToLower E (el_Name exportList)) of
           None \<Rightarrow> create_list E v (el_Name exportList) exportList
         | Some existingID \<Rightarrow>
             if conflictResolution = ''skip'' then v\<lparr>skippedLists := skippedLists v + 1\<rparr>
             else if conflictResolution = ''replace'' then
               (case Exec_delete_list E (sess v) existingID of
                  (False, s1) \<Rightarrow> v\<lparr>sess := s1\<rparr>
                | (True, s1) \<Rightarrow> create_list E (v\<lparr>sess := s1\<rparr>) (el_Name exportList) exportList)
             else if conflictResolution = ''copy'' then
               (case findUniqueName E (el_Name exportList) copySuffix (existingNames v) of
                  (name, names) \<Rightarrow> create_list E (v\<lparr>existingNames := names\<rparr>) name exportList)
             else create_list E v (el_Name exportList) exportList))"

definition import_template :: "env \<Rightarrow> json_vars \<Rightarrow> ExportTemplate \<Rightarrow> json_vars" where
  \<comment> \<open>The body of the loop over the uploaded templates: both calls go to the database
      handle, not to the transaction.\<close>
  "import_template E v exportTemplate =
     (case CreateTemplate E (sess v) (et_Name exportTemplate) (et_Description exportTemplate) of
        (None, s1) \<Rightarrow> v\<lparr>sess := s1\<rparr>
      | (Some template, s1) \<Rightarrow>
          v\<lparr>sess := foldl (\<lambda>s item. AddTemplateItem E s (template_id template)
                              (eti_SectionName item) (eti_Name item) (eti_Description item))
                      s1 (et_Items exportTemplate),
            importedTemplates := importedTemplates v + 1\<rparr>)"

definition import_history :: "env \<Rightarrow> json_vars \<Rightarrow> ExportHistory \<Rightarrow> json_vars" where
  \<comment> \<open>The body of the loop over the uploaded history.\<close>
  "import_history E v h =
     (let usageCount = (if eh_UsageCount h < 1 then 1 else eh_UsageCount h);
          sectionID = GetSectionIDByNameTx (sess v) (eh_LastSection h)
      in case SaveItemHistoryWithCountTx E (sess v) (eh_Name h) sectionID usageCount of
           (ok, s1) \<Rightarrow>
             v\<lparr>sess := s1,
               importedHistory := (if ok then importedHistory v + 1 else importedHistory v)\<rparr>)"

definition json_start :: "env \<Rightarrow> database \<Rightarrow> json_vars" where
  \<comment> \<open>The variables as the loops find them: the transaction open, the lookup table built
      from the existing lists, the counters at zero.\<close>
  "json_start E d =
     \<lparr>sess = Begin d, existingNames = existing_names E (existingLists E d), importedLists = 0,
      importedItems = 0, importedHistory = 0, skippedLists = 0, importedTemplates = 0\<rparr>"

definition json_loops :: "env \<Rightarrow> string \<Rightarrow> string \<Rightarrow> ExportData \<Rightarrow> json_vars \<Rightarrow> json_vars" where
  \<comment> \<open>The three loops, in the order of the source: lists, templates, history.\<close>
  "json_loops E conflictResolution copySuffix exportData v =
     foldl (import_history E)
       (foldl (import_template E)
          (foldl (import_list E conflictResolution copySuffix) v (Lists (Data exportData)))
          (Templates (Data exportData)))
       (History (Data exportData))"

definition importJSON ::
  "env \<Rightarrow> database \<Rightarrow> string + ExportData \<Rightarrow> string \<Rightarrow> string \<Rightarrow> response \<times> database" where
  \<comment> \<open>\<open>decoded\<close> is what \<open>decodeJSON(data)\<close> returns. The result is the response and the
      database the request leaves behind.\<close>
  "importJSON E d decoded conflictResolution copySuffix =
     (case decoded of
        Inl err \<Rightarrow> (Response 400 (ErrorJson ''Invalid JSON format''), d)
      | Inr exportData \<Rightarrow>
          if begin_fails E then (Response 500 (ErrorJson ''Failed to start transaction''), d)
          else
            (let v = json_loops E conflictResolution copySuffix exportData (json_start E d)
             in if commit_fails E then
                  (Response 500 (ErrorJson ''Failed to commit import''), Rollback (sess v))
                else
                  (Response 200
                     (ImportJsonSummary (importedLists v) (importedItems v)
                        (importedTemplates v) (importedHistory v) (skippedLists v)),
                   Commit (sess v))))"

section \<open>Import of a CSV table\<close>

text \<open>
  \<open>createdSections\<close> is a map of maps in the source: a missing inner map reads as an empty
  one. The inner map of a list key is made in the same statement group that enters the key
  into \<open>createdLists\<close>, so the write into it never meets a missing map.
\<close>

record csv_vars = import_vars +
  createdLists :: "string \<rightharpoonup> list_row"
  createdSections :: "string \<Rightarrow> (string \<rightharpoonup> section_row)"
  sectionOrders :: "string \<Rightarrow> nat"
  itemOrders :: "int \<Rightarrow> nat"
  skippedListNames :: "string \<Rightarrow> bool"

definition import_history_row :: "env \<Rightarrow> csv_vars \<Rightarrow> string list \<Rightarrow> csv_vars" where
  \<comment> \<open>A row whose first column is the history marker.\<close>
  "import_history_row E v row =
     (let itemName = (if length row > 2 then TrimSpace E (row ! 2) else '''')
      in if itemName \<noteq> '''' then
           (let lastSectionName = (if length row > 3 then TrimSpace E (row ! 3) else '''');
                usageCount =
                  (if length row > 4 then
                     (case Atoi E (TrimSpace E (row ! 4)) of
                        Some n \<Rightarrow> if n > 0 then n else 1
                      | None \<Rightarrow> 1)
                   else 1);
                sectionID = GetSectionIDByNameTx (sess v) lastSectionName
            in case SaveItemHistoryWithCountTx E (sess v) itemName sectionID usageCount of
                 (ok, s1) \<Rightarrow>
                   v\<lparr>sess := s1,
                     importedHistory :=
                       (if ok then importedHistory v + 1 else importedHistory v)\<rparr>)
         else v)"

definition create_csv_list ::
  "env \<Rightarrow> csv_vars \<Rightarrow> string \<Rightarrow> string \<Rightarrow> string \<Rightarrow> csv_vars \<times> (list_row \<times> string) option" where
  \<comment> \<open>\<open>db.CreateListTx\<close> and the bookkeeping after it; \<open>None\<close> is the \<open>continue\<close>.\<close>
  "create_csv_list E v listName listKey listIcon =
     (case CreateListTx E (sess v) listName listIcon of
        (None, s1) \<Rightarrow> (v\<lparr>sess := s1\<rparr>, None)
      | (Some newList, s1) \<Rightarrow>
          (v\<lparr>sess := s1, importedLists := importedLists v + 1,
             createdLists := (createdLists v)(listKey \<mapsto> newList),
             createdSections := (createdSections v)(listKey := Map.empty),
             sectionOrders := (sectionOrders v)(listKey := 0)\<rparr>,
           Some (newList, listKey)))"

definition get_or_create_list ::
  "env \<Rightarrow> string \<Rightarrow> string \<Rightarrow> csv_vars \<Rightarrow> string \<Rightarrow> string \<Rightarrow> string
     \<Rightarrow> csv_vars \<times> (list_row \<times> string) option" where
  \<comment> \<open>The block "Get or create list": the list the row belongs to and the key it is
      tracked under from here on, or \<open>None\<close> where the source says \<open>continue\<close>.\<close>
  "get_or_create_list E conflictResolution copySuffix v listName listKey listIcon =
     (case createdLists v listKey of
        Some list \<Rightarrow> (v, Some (list, listKey))
      | None \<Rightarrow>
          (case existingNames v listKey of
             None \<Rightarrow> create_csv_list E v listName listKey listIcon
           | Some existingID \<Rightarrow>
               if conflictResolution = ''skip'' then
                 (v\<lparr>skippedLists := skippedLists v + 1,
                    skippedListNames := (skippedListNames v)(listKey := True)\<rparr>, None)
               else if conflictResolution = ''replace'' then
                 create_csv_list E (v\<lparr>sess := snd (Exec_delete_list E (sess v) existingID)\<rparr>)
                   listName listKey listIcon
               else if conflictResolution = ''copy'' then
                 (case findUniqueName E listName copySuffix (existingNames v) of
                    (name, names) \<Rightarrow>
                      create_csv_list E (v\<lparr>existingNames := names\<rparr>) name (ToLower E name)
                        listIcon)
               else create_csv_list E v listName listKey listIcon))"

definition get_or_create_section ::
  "env \<Rightarrow> string \<Rightarrow> csv_vars \<Rightarrow> list_row \<Rightarrow> string \<Rightarrow> string \<Rightarrow> csv_vars \<times> section_row option" where
  \<comment> \<open>The block "Get or create section".\<close>
  "get_or_create_section E defaultSectionName v list listKey sectionName0 =
     (let sectionName1 = (if sectionName0 = '''' then defaultSectionName else sectionName0);
          sectionName =
            (if length sectionName1 > MaxSectionNameLength
             then take MaxSectionNameLength sectionName1 else sectionName1);
          sectionKey = ToLower E sectionName
      in case createdSections v listKey sectionKey of
           Some section \<Rightarrow> (v, Some section)
         | None \<Rightarrow>
             (case CreateSectionForListTx E (sess v) (list_id list) sectionName
                     (sectionOrders v listKey) of
                (None, s1) \<Rightarrow> (v\<lparr>sess := s1\<rparr>, None)
              | (Some newSection, s1) \<Rightarrow>
                  (v\<lparr>sess := s1,
                     createdSections := (createdSections v)
                       (listKey := (createdSections v listKey)(sectionKey \<mapsto> newSection)),
                     sectionOrders := (sectionOrders v)(listKey := sectionOrders v listKey + 1),
                     itemOrders := (itemOrders v)(section_id newSection := 0)\<rparr>,
                   Some newSection)))"

definition create_csv_item ::
  "env \<Rightarrow> csv_vars \<Rightarrow> section_row \<Rightarrow> string \<Rightarrow> string \<Rightarrow> bool \<Rightarrow> bool \<Rightarrow> csv_vars" where
  \<comment> \<open>The block "Create item".\<close>
  "create_csv_item E v section itemName itemDescription itemCompleted itemUncertain =
     (if itemName \<noteq> '''' then
        (case CreateItemTx E (sess v) (section_id section) itemName itemDescription
                (itemOrders v (section_id section)) of
           (None, s1) \<Rightarrow> v\<lparr>sess := s1\<rparr>
         | (Some item, s1) \<Rightarrow>
             (let s2 = (if itemCompleted
                        then Exec_set_item_completed E s1 (item_id item) else s1);
                  s3 = (if itemUncertain
                        then Exec_set_item_uncertain E s2 (item_id item) else s2)
              in v\<lparr>sess := s3, importedItems := importedItems v + 1,
                   itemOrders := (itemOrders v)
                     (section_id section := itemOrders v (section_id section) + 1)\<rparr>))
      else v)"

definition place_row ::
  "env \<Rightarrow> string \<Rightarrow> string \<Rightarrow> string \<Rightarrow> csv_vars \<Rightarrow> string \<Rightarrow> string \<Rightarrow> string \<Rightarrow> string
     \<Rightarrow> string \<Rightarrow> string \<Rightarrow> bool \<Rightarrow> bool \<Rightarrow> csv_vars" where
  \<comment> \<open>The three blocks in turn, each \<open>continue\<close> ending the row.\<close>
  "place_row E conflictResolution copySuffix defaultSectionName v listName listKey listIcon
     sectionName itemName itemDescription itemCompleted itemUncertain =
     (case get_or_create_list E conflictResolution copySuffix v listName listKey listIcon of
        (v1, None) \<Rightarrow> v1
      | (v1, Some (list, listKey1)) \<Rightarrow>
          (case get_or_create_section E defaultSectionName v1 list listKey1 sectionName of
             (v2, None) \<Rightarrow> v2
           | (v2, Some section) \<Rightarrow>
               create_csv_item E v2 section itemName itemDescription itemCompleted
                 itemUncertain))"

definition import_row :: "env \<Rightarrow> string \<Rightarrow> string \<Rightarrow> string \<Rightarrow> csv_vars \<Rightarrow> string list \<Rightarrow> csv_vars" where
  \<comment> \<open>The body of the loop over the data rows: the checks and the columns of the row, then
      the three blocks.\<close>
  "import_row E conflictResolution copySuffix defaultSectionName v row =
     (if length row < 4 then v
      else if TrimSpace E (row ! 0) = '''' then v
      else if TrimSpace E (row ! 0) = ''[HISTORY]'' then import_history_row E v row
      else if skippedListNames v (ToLower E (TrimSpace E (row ! 0))) then v
      else
        (let listName =
               (if length (TrimSpace E (row ! 0)) > MaxListNameLength
                then take MaxListNameLength (TrimSpace E (row ! 0)) else TrimSpace E (row ! 0));
             listKey = ToLower E listName;
             listIcon =
               (if length row > 1 \<and> row ! 1 \<noteq> '''' then
                  (if length (row ! 1) > MaxIconLength E then default_icon else row ! 1)
                else default_icon);
             sectionName = (if length row > 2 then TrimSpace E (row ! 2) else '''');
             itemName0 = TrimSpace E (row ! 3);
             itemDescription0 = (if length row > 4 then TrimSpace E (row ! 4) else '''');
             itemCompleted =
               (if length row > 5 then ToLower E (TrimSpace E (row ! 5)) = ''true'' else False);
             itemUncertain =
               (if length row > 6 then ToLower E (TrimSpace E (row ! 6)) = ''true'' else False);
             itemName =
               (if length itemName0 > MaxItemNameLength
                then take MaxItemNameLength itemName0 else itemName0);
             itemDescription =
               (if length itemDescription0 > MaxDescriptionLength
                then take MaxDescriptionLength itemDescription0 else itemDescription0)
         in place_row E conflictResolution copySuffix defaultSectionName v listName listKey
              listIcon sectionName itemName itemDescription itemCompleted itemUncertain))"

definition default_section_name :: "env \<Rightarrow> string" where
  \<comment> \<open>The localized default, or \<open>General\<close> where the key has no translation.\<close>
  "default_section_name E =
     (if i18n_Get E ''sections.default'' = ''sections.default'' then ''General''
      else i18n_Get E ''sections.default'')"

definition csv_start :: "env \<Rightarrow> database \<Rightarrow> csv_vars" where
  "csv_start E d =
     \<lparr>sess = Begin d, existingNames = existing_names E (existingLists E d), importedLists = 0,
      importedItems = 0, importedHistory = 0, skippedLists = 0,
      createdLists = Map.empty, createdSections = (\<lambda>k. Map.empty), sectionOrders = (\<lambda>k. 0),
      itemOrders = (\<lambda>k. 0), skippedListNames = (\<lambda>k. False)\<rparr>"

definition csv_rows ::
  "env \<Rightarrow> string \<Rightarrow> string \<Rightarrow> csv_vars \<Rightarrow> string list list \<Rightarrow> csv_vars" where
  \<comment> \<open>The loop over the rows after the header.\<close>
  "csv_rows E conflictResolution copySuffix v rows =
     foldl (import_row E conflictResolution copySuffix (default_section_name E)) v rows"

definition importCSV ::
  "env \<Rightarrow> database \<Rightarrow> string + string list list \<Rightarrow> string \<Rightarrow> string
     \<Rightarrow> response \<times> database" where
  \<comment> \<open>\<open>parsed\<close> is what \<open>reader.ReadAll()\<close> returns on the upload, its byte-order mark removed
      and the delimiter set: the error's text or the records.\<close>
  "importCSV E d parsed conflictResolution copySuffix =
     (case parsed of
        Inl err \<Rightarrow> (Response 400 (ErrorJson ''Invalid CSV format''), d)
      | Inr records \<Rightarrow>
          if length records < 2 then (Response 400 (ErrorJson ''CSV file is empty''), d)
          else if begin_fails E then
            (Response 500 (ErrorJson ''Failed to start transaction''), d)
          else
            (let v = csv_rows E conflictResolution copySuffix (csv_start E d) (tl records)
             in if commit_fails E then
                  (Response 500 (ErrorJson ''Failed to commit import''), Rollback (sess v))
                else
                  (Response 200
                     (ImportCsvSummary (importedLists v) (importedItems v) (importedHistory v)
                        (skippedLists v)),
                   Commit (sess v))))"

section \<open>Skipped lists\<close>

text \<open>
  What the statements about \<open>conflict_resolution=skip\<close> speak of: the variables with one
  more list counted as skipped, and the rows of a table by the list they name.
\<close>

definition skip_counted :: "json_vars \<Rightarrow> json_vars" where
  "skip_counted v = v\<lparr>skippedLists := skippedLists v + 1\<rparr>"

definition skip_marked :: "string \<Rightarrow> csv_vars \<Rightarrow> csv_vars" where
  "skip_marked k v =
     v\<lparr>skippedLists := skippedLists v + 1,
       skippedListNames := (skippedListNames v)(k := True)\<rparr>"

definition row_list_name :: "env \<Rightarrow> string list \<Rightarrow> string option" where
  \<comment> \<open>The list a data row names; \<open>None\<close> for a short row, a row without a list name and a
      history row.\<close>
  "row_list_name E row =
     (if length row < 4 then None
      else if TrimSpace E (row ! 0) = '''' then None
      else if TrimSpace E (row ! 0) = ''[HISTORY]'' then None
      else Some (TrimSpace E (row ! 0)))"

definition names_list :: "env \<Rightarrow> string \<Rightarrow> string list \<Rightarrow> bool" where
  \<comment> \<open>The row names the list with the lower-cased name \<open>k\<close>.\<close>
  "names_list E k row =
     (case row_list_name E row of None \<Rightarrow> False | Some n \<Rightarrow> ToLower E n = k)"

definition row_clear :: "env \<Rightarrow> string \<Rightarrow> string list \<Rightarrow> bool" where
  \<comment> \<open>A row that names the list \<open>k\<close> does so with a name within the limit, and a row that
      names another list is not cut down to a name with the key \<open>k\<close>.\<close>
  "row_clear E k row =
     (case row_list_name E row of
        None \<Rightarrow> True
      | Some n \<Rightarrow>
          if ToLower E n = k then length n \<le> MaxListNameLength
          else ToLower E (if length n > MaxListNameLength then take MaxListNameLength n else n)
                 \<noteq> k)"

fun add_skipped :: "response \<Rightarrow> response" where
  \<comment> \<open>The response with one more skipped list in its summary.\<close>
  "add_skipped (Response st (ImportJsonSummary ls its ts hs sk)) =
     Response st (ImportJsonSummary ls its ts hs (sk + 1))"
| "add_skipped (Response st (ImportCsvSummary ls its hs sk)) =
     Response st (ImportCsvSummary ls its hs (sk + 1))"
| "add_skipped r = r"

definition with_lists :: "ExportData \<Rightarrow> ExportList list \<Rightarrow> ExportData" where
  \<comment> \<open>The document with its lists replaced.\<close>
  "with_lists d ls = d\<lparr>Data := (Data d)\<lparr>Lists := ls\<rparr>\<rparr>"

section \<open>Long item names\<close>

text \<open>
  What the statements about long item names speak of: the characters of a name, where the
  code counts its bytes, and a document with every item name cut down to the limit.
\<close>

definition continuation_byte :: "char \<Rightarrow> bool" where
  \<comment> \<open>A byte \<open>10xxxxxx\<close>: it continues a UTF-8 sequence and starts no character.\<close>
  "continuation_byte c = (128 \<le> (of_char c :: nat) \<and> (of_char c :: nat) < 192)"

definition character_count :: "string \<Rightarrow> nat" where
  \<comment> \<open>The characters of a well-formed UTF-8 text: the bytes that start a sequence.\<close>
  "character_count s = length (filter (\<lambda>c. \<not> continuation_byte c) s)"

definition cut_item :: "ExportItem \<Rightarrow> ExportItem" where
  "cut_item it = it\<lparr>ei_Name := take MaxItemNameLength (ei_Name it)\<rparr>"

definition cut_section :: "ExportSection \<Rightarrow> ExportSection" where
  "cut_section sec = sec\<lparr>es_Items := map cut_item (es_Items sec)\<rparr>"

definition cut_list :: "ExportList \<Rightarrow> ExportList" where
  "cut_list l = l\<lparr>el_Sections := map cut_section (el_Sections l)\<rparr>"

definition item_names_cut :: "ExportData \<Rightarrow> ExportData" where
  \<comment> \<open>The document with every item name cut down to its first 200 bytes.\<close>
  "item_names_cut d = with_lists d (map cut_list (Lists (Data d)))"

section \<open>Concrete stores and uploads\<close>

definition csv_header :: "string list" where
  "csv_header = [''list_name'', ''list_icon'', ''section_name'', ''item_name'',
     ''item_description'', ''item_completed'', ''item_uncertain'']"

definition csv_row :: "string \<Rightarrow> string \<Rightarrow> string \<Rightarrow> string list" where
  \<comment> \<open>A data row of the seven columns: a list, a section, an item, and nothing else set.\<close>
  "csv_row listName sectionName itemName =
     [listName, '''', sectionName, itemName, '''', ''false'', ''false'']"

definition empty_db :: database where
  "empty_db =
     \<lparr>tabs = \<lparr>list_rows = [], section_rows = [], item_rows = [], history_rows = [],
              next_id = 1\<rparr>,
      template_rows = [], template_item_rows = [], next_template_id = 1\<rparr>"

definition db_with_list :: "string \<Rightarrow> database" where
  \<comment> \<open>A store that holds one list, with the key 1, and nothing else.\<close>
  "db_with_list name =
     \<lparr>tabs = \<lparr>list_rows = [\<lparr>list_id = 1, list_name = name, list_icon = default_icon,
                              list_is_active = True\<rparr>],
              section_rows = [], item_rows = [], history_rows = [], next_id = 2\<rparr>,
      template_rows = [], template_item_rows = [], next_template_id = 1\<rparr>"

definition json_doc :: "string \<Rightarrow> ExportList list \<Rightarrow> ExportTemplate list \<Rightarrow> ExportData" where
  \<comment> \<open>An export envelope with the given app tag, lists and templates, and no history.\<close>
  "json_doc app ls ts =
     \<lparr>Version = ''1.0'', ExportedAt = ''2024-01-01T00:00:00Z'', App = app,
      Data = \<lparr>Lists = ls, Templates = ts, History = []\<rparr>\<rparr>"

definition one_item_list :: "string \<Rightarrow> string \<Rightarrow> string \<Rightarrow> ExportList" where
  \<comment> \<open>An uploaded list with one section that holds one item.\<close>
  "one_item_list listName sectionName itemName =
     \<lparr>el_Name = listName, el_Icon = ''*'', el_IsActive = False,
      el_Sections = [\<lparr>es_Name = sectionName,
        es_Items = [\<lparr>ei_Name = itemName, ei_Description = '''', ei_Completed = False,
                     ei_Uncertain = False\<rparr>]\<rparr>]\<rparr>"

definition all_taken :: "env \<Rightarrow> string \<Rightarrow> string \<Rightarrow> (string \<rightharpoonup> int)" where
  \<comment> \<open>The lookup table of a store that holds a list under each of the 100 names the
      resolver tries for a base name.\<close>
  "all_taken E baseName suffix =
     map_of (map (\<lambda>c. (ToLower E c, 1)) (candidates baseName suffix))"

definition e_acute :: "nat \<Rightarrow> string" where
  \<comment> \<open>The letter e with an acute accent, \<open>n\<close> times: two bytes each in UTF-8.\<close>
  "e_acute n = concat (replicate n [CHR 0xC3, CHR 0xA9])"

section \<open>Version check: proofs\<close>

lemma digits_loop_acc:
  "digits_loop s (word_of_nat m) =
     word_of_nat (foldl (\<lambda>n c. n * 10 + (of_char c - 48)) m (takeWhile is_digit s))"
proof (induction s arbitrary: m)
  case Nil
  show ?case by simp
next
  case (Cons c cs)
  have step: "(word_of_nat m :: 64 word) * 10 + word_of_nat (of_char c - 48)
                = word_of_nat (m * 10 + (of_char c - 48))"
    by simp
  show ?case
    by (simp only: digits_loop.simps takeWhile.simps foldl.simps step Cons.IH split: if_split)
       simp
qed

lemma digits_loop_value:
  "digits_loop s 0 = word_of_nat (decimal_value (takeWhile is_digit s))"
  unfolding decimal_value_def using digits_loop_acc [of s 0] by simp

lemma parse_fold:
  "fold (\<lambda>i result. result[i := f i]) [0 ..< min 3 n] [0, 0, 0 :: 64 word]
     = map (\<lambda>i. if i < n then f i else 0) [0, 1, 2]"
proof -
  consider "n = 0" | "n = 1" | "n = 2" | "n \<ge> 3" by linarith
  then show ?thesis
  proof cases
    case 4
    then have "min 3 n = 3" by simp
    then show ?thesis using 4 by (simp add: upt_rec eval_nat_numeral)
  qed (simp_all add: upt_rec eval_nat_numeral)
qed

lemma parseVersion_parts:
  "parseVersion v =
     (let parts = Split (TrimPrefix v ''v'') CHR ''.''
      in map (\<lambda>i. if i < length parts then digits_loop (parts ! i) 0 else 0) [0, 1, 2])"
  by (simp add: parseVersion_def Let_def parse_fold)

lemma compare_parts_lex:
  "compare_parts [a0, a1, a2] [b0, b1, b2] 0 =
     version_greater (sint a0, sint a1, sint a2) (sint b0, sint b1, sint b2)"
  apply (subst compare_parts.simps)
  apply (subst compare_parts.simps)
  apply (subst compare_parts.simps)
  apply (subst compare_parts.simps)
  apply (simp add: version_greater_def)
  done

lemmas version_eval =
  isNewerVersion_def parseVersion_parts TrimPrefix_def is_digit_def Let_def compare_parts_lex
  version_greater_def version_components_def component_def decimal_value_def

text \<open>
  Claim C5, as amended. \<open>isNewerVersion latest current\<close> is false whenever \<open>latest\<close> is
  \<open>unknown\<close> or empty, or \<open>current\<close> is \<open>dev\<close>. In every other case it takes from each string,
  after one leading \<open>v\<close>, the first three dot-separated parts, reads each part up to its first
  non-digit as a (64-bit) number, a missing part as 0, and answers whether the latest triple is
  greater than the current one, major first, then minor, then patch. A placeholder on the other
  side (\<open>unknown\<close> or the empty string as \<open>current\<close>, \<open>dev\<close> as \<open>latest\<close>) is not refused: it is
  parsed like any version and reads as 0.0.0.
\<close>

theorem isNewerVersion_guard_and_order:
  "(latest = ''unknown'' \<or> latest = '''' \<or> current = ''dev''
      \<longrightarrow> \<not> isNewerVersion latest current) \<and>
   (latest \<noteq> ''unknown'' \<and> latest \<noteq> '''' \<and> current \<noteq> ''dev''
      \<longrightarrow> isNewerVersion latest current =
            version_greater (version_components latest) (version_components current))"
proof (intro conjI impI)
  assume "latest = ''unknown'' \<or> latest = '''' \<or> current = ''dev''"
  then show "\<not> isNewerVersion latest current"
    by (auto simp: isNewerVersion_def)
next
  assume "latest \<noteq> ''unknown'' \<and> latest \<noteq> '''' \<and> current \<noteq> ''dev''"
  then show "isNewerVersion latest current =
               version_greater (version_components latest) (version_components current)"
    by (simp add: isNewerVersion_def parseVersion_parts Let_def compare_parts_lex
          version_components_def component_def digits_loop_value)
qed

theorem isNewerVersion_guard_and_order_witness:
  "isNewerVersion ''v1.2.0'' ''1.1.9'' \<and>
   version_components ''v1.2.0'' = (1, 2, 0) \<and> version_components ''1.1.9'' = (1, 1, 9) \<and>
   \<not> isNewerVersion ''1.1.9'' ''v1.2.0'' \<and>
   \<not> isNewerVersion ''unknown'' ''1.1.9'' \<and>
   \<not> isNewerVersion '''' ''1.1.9'' \<and>
   \<not> isNewerVersion ''v1.2.0'' ''dev'' \<and>
   version_components ''unknown'' = (0, 0, 0) \<and> version_components '''' = (0, 0, 0) \<and>
   version_components ''dev'' = (0, 0, 0)"
  using isNewerVersion_guard_and_order [of "''v1.2.0''" "''1.1.9''"]
    isNewerVersion_guard_and_order [of "''1.1.9''" "''v1.2.0''"]
    isNewerVersion_guard_and_order [of "''unknown''" "''1.1.9''"]
    isNewerVersion_guard_and_order [of "''''" "''1.1.9''"]
    isNewerVersion_guard_and_order [of "''v1.2.0''" "''dev''"]
  by (simp add: version_components_def component_def TrimPrefix_def is_digit_def
        decimal_value_def version_greater_def)

text \<open>
  Claim C5 as stated fails: with the placeholder \<open>unknown\<close>, or the empty string, as the
  current version, a latest version 1.0.0 is reported as newer.
\<close>

theorem isNewerVersion_placeholder_current_counterexample:
  "isNewerVersion ''1.0.0'' ''unknown'' \<and> isNewerVersion ''1.0.0'' ''''"
  by (simp add: version_eval)

section \<open>Token gate: proofs\<close>

text \<open>
  Claim C8. With no token configured (\<open>API_TOKEN\<close> empty) the middleware answers 503 with the
  error \<open>api_disabled\<close>, whatever the \<open>Authorization\<close> header holds, and so never passes the
  request on.
\<close>

theorem TokenAuthMiddleware_disabled:
  "TokenAuthMiddleware E '''' authHeader =
     Reply (Response 503 (ApiError ''api_disabled'' ''API is not enabled on this server'')) \<and>
   TokenAuthMiddleware E '''' authHeader \<noteq> Next"
  by (simp add: TokenAuthMiddleware_def)

theorem TokenAuthMiddleware_disabled_witness:
  "TokenAuthMiddleware ascii_env '''' ''Bearer s3cret'' =
     Reply (Response 503 (ApiError ''api_disabled'' ''API is not enabled on this server'')) \<and>
   TokenAuthMiddleware ascii_env '''' '''' \<noteq> Next \<and>
   TokenAuthMiddleware ascii_env ''s3cret'' ''Bearer s3cret'' = Next"
  using TokenAuthMiddleware_disabled [of ascii_env "''Bearer s3cret''"]
    TokenAuthMiddleware_disabled [of ascii_env "''''"]
  by (simp add: TokenAuthMiddleware_def SplitN2_def ascii_env_def ascii_lower_def)

section \<open>Conflict resolver: proofs\<close>


lemma numbered_loop_find:
  "i \<le> 101 \<Longrightarrow>
   numbered_loop E b s m i =
     (case find (\<lambda>c. m (ToLower E c) = None) (map (numbered_candidate b s) [i ..< 101]) of
        Some c \<Rightarrow> (c, m(ToLower E c \<mapsto> -1))
      | None \<Rightarrow> (numbered_candidate b s 9999, m))"
proof (induction E b s m i rule: numbered_loop.induct)
  case (1 E b s m i)
  show ?case
  proof (cases "i \<le> 100")
    case True
    then have upt: "[i ..< 101] = i # [i + 1 ..< 101]"
      by (simp add: upt_conv_Cons)
    show ?thesis
    proof (cases "m (ToLower E (numbered_candidate b s i)) = None")
      case free: True
      show ?thesis
        by (subst numbered_loop.simps) (simp add: True upt free Let_def)
    next
      case taken: False
      have "numbered_loop E b s m i = numbered_loop E b s m (i + 1)"
        by (subst numbered_loop.simps) (simp add: True taken Let_def)
      also have "\<dots> = (case find (\<lambda>c. m (ToLower E c) = None)
                          (map (numbered_candidate b s) [i + 1 ..< 101]) of
                        Some c \<Rightarrow> (c, m(ToLower E c \<mapsto> -1))
                      | None \<Rightarrow> (numbered_candidate b s 9999, m))"
        using "1.IH" [OF True refl refl taken] True by simp
      finally show ?thesis
        using taken by (auto simp: upt)
    qed
  next
    case False
    with "1.prems" have "i = 101" by simp
    then show ?thesis
      by (subst numbered_loop.simps) simp
  qed
qed

lemma findUniqueName_refines:
  "findUniqueName E b s m = first_free_name E b s m"
  by (simp add: findUniqueName_def first_free_name_def candidates_def Let_def
        numbered_loop_find)

lemma numbered_loop_first_free:
  assumes "i \<le> k" "k \<le> 100" "m (ToLower E (numbered_candidate b s k)) = None"
    and "\<And>j. i \<le> j \<Longrightarrow> j < k \<Longrightarrow> m (ToLower E (numbered_candidate b s j)) \<noteq> None"
  shows "numbered_loop E b s m i =
           (numbered_candidate b s k, m(ToLower E (numbered_candidate b s k) \<mapsto> -1))"
  using assms
proof (induction "k - i" arbitrary: i)
  case 0
  then have "i = k" by simp
  with 0 show ?case
    by (subst numbered_loop.simps) (simp add: Let_def)
next
  case (Suc d)
  then have "i < k" by simp
  with Suc.prems have taken: "m (ToLower E (numbered_candidate b s i)) \<noteq> None" by simp
  have "numbered_loop E b s m i = numbered_loop E b s m (i + 1)"
    using \<open>i < k\<close> \<open>k \<le> 100\<close> taken by (subst numbered_loop.simps) (auto simp: Let_def)
  also have "\<dots> = (numbered_candidate b s k, m(ToLower E (numbered_candidate b s k) \<mapsto> -1))"
    using Suc.hyps(2) \<open>i < k\<close> Suc.prems by (intro Suc.hyps(1)) simp_all
  finally show ?case .
qed

lemma findUniqueName_fallback:
  assumes "\<And>c. c \<in> set (candidates b s) \<Longrightarrow> m (ToLower E c) \<noteq> None"
  shows "findUniqueName E b s m = (numbered_candidate b s 9999, m)"
proof -
  have "find (\<lambda>c. m (ToLower E c) = None) (candidates b s) = None"
    using assms by (simp add: find_None_iff)
  then show ?thesis
    by (simp add: findUniqueName_refines first_free_name_def)
qed

lemma all_taken_Some:
  "c \<in> set (candidates b s) \<Longrightarrow> all_taken E b s (ToLower E c) \<noteq> None"
  unfolding all_taken_def
  by (simp add: map_of_eq_None_iff image_iff) (metis)

lemma length_Itoa: "n < 1000 \<Longrightarrow> length (Itoa n) \<le> 3"
  apply (subst Itoa.simps)
  apply (subst Itoa.simps)
  apply (subst Itoa.simps)
  apply (simp add: less_eq_div_iff_mult_less_eq)
  done

lemma length_candidate_le:
  "c \<in> set (candidates b s) \<Longrightarrow> length c \<le> length b + length s + 7"
  using length_Itoa
  by (auto simp: candidates_def plain_candidate_def numbered_candidate_def
        intro!: order_trans [OF length_Itoa])

lemma all_taken_fallback_free:
  assumes "\<And>x. length (ToLower E x) = length x"
  shows "all_taken E b s (ToLower E (numbered_candidate b s 9999)) = None"
proof -
  have len: "length (numbered_candidate b s 9999) = length b + length s + 8"
    by (simp add: numbered_candidate_def Itoa.simps)
  have "ToLower E (numbered_candidate b s 9999) \<noteq> ToLower E c"
    if "c \<in> set (candidates b s)" for c
  proof
    assume "ToLower E (numbered_candidate b s 9999) = ToLower E c"
    then have "length (numbered_candidate b s 9999) = length c"
      using assms by metis
    with length_candidate_le [OF that] len show False by simp
  qed
  then show ?thesis
    unfolding all_taken_def by (auto simp: map_of_eq_None_iff image_iff)
qed

lemma length_ascii_lower: "length (ToLower ascii_env x) = length x"
  by (simp add: ascii_env_def)

lemma groceries_key: "ToLower ascii_env ''Groceries (copy)'' = ''groceries (copy)''"
  by (simp add: ascii_env_def ascii_lower_def)

lemma groceries_key2: "ToLower ascii_env ''Groceries (copy 2)'' = ''groceries (copy 2)''"
  by (simp add: ascii_env_def ascii_lower_def)

lemmas candidate_eval = plain_candidate_def numbered_candidate_def Itoa.simps

text \<open>
  Claim C3. \<open>findUniqueName\<close> returns the first name of \<open>candidates\<close> whose lower-cased form is
  not a key of the lookup table: the base name with the suffix in parentheses, then the
  numbered forms from 2 to 100, which makes 100 names in all; when every one of them is taken
  it returns the form numbered 9999. The three cases are spelled out as well, and the two
  examples of the specification are computed.
\<close>

theorem findUniqueName_first_free:
  "findUniqueName E b s m = first_free_name E b s m \<and>
   length (candidates b s) = 100 \<and>
   (m (ToLower E (plain_candidate b s)) = None \<longrightarrow>
      findUniqueName E b s m =
        (plain_candidate b s, m(ToLower E (plain_candidate b s) \<mapsto> -1))) \<and>
   (m (ToLower E (plain_candidate b s)) \<noteq> None \<and> 2 \<le> k \<and> k \<le> 100 \<and>
    m (ToLower E (numbered_candidate b s k)) = None \<and>
    (\<forall>j. 2 \<le> j \<and> j < k \<longrightarrow> m (ToLower E (numbered_candidate b s j)) \<noteq> None) \<longrightarrow>
      findUniqueName E b s m =
        (numbered_candidate b s k, m(ToLower E (numbered_candidate b s k) \<mapsto> -1))) \<and>
   ((\<forall>c \<in> set (candidates b s). m (ToLower E c) \<noteq> None) \<longrightarrow>
      findUniqueName E b s m = (numbered_candidate b s 9999, m)) \<and>
   fst (findUniqueName ascii_env ''Groceries'' ''copy'' Map.empty) = ''Groceries (copy)'' \<and>
   fst (findUniqueName ascii_env ''Groceries'' ''copy'' [''groceries (copy)'' \<mapsto> 1])
     = ''Groceries (copy 2)''"
proof (intro conjI impI)
  show "findUniqueName E b s m = first_free_name E b s m"
    by (rule findUniqueName_refines)
  show "length (candidates b s) = 100"
    by (simp add: candidates_def)
  show "findUniqueName E b s m =
          (plain_candidate b s, m(ToLower E (plain_candidate b s) \<mapsto> -1))"
    if "m (ToLower E (plain_candidate b s)) = None"
    using that by (simp add: findUniqueName_def Let_def)
  show "findUniqueName E b s m =
          (numbered_candidate b s k, m(ToLower E (numbered_candidate b s k) \<mapsto> -1))"
    if h: "m (ToLower E (plain_candidate b s)) \<noteq> None \<and> 2 \<le> k \<and> k \<le> 100 \<and>
           m (ToLower E (numbered_candidate b s k)) = None \<and>
           (\<forall>j. 2 \<le> j \<and> j < k \<longrightarrow> m (ToLower E (numbered_candidate b s j)) \<noteq> None)"
  proof -
    have "numbered_loop E b s m 2 =
            (numbered_candidate b s k, m(ToLower E (numbered_candidate b s k) \<mapsto> -1))"
      using h by (intro numbered_loop_first_free) auto
    with h show ?thesis
      by (auto simp: findUniqueName_def Let_def)
  qed
  show "findUniqueName E b s m = (numbered_candidate b s 9999, m)"
    if "\<forall>c \<in> set (candidates b s). m (ToLower E c) \<noteq> None"
    using that by (intro findUniqueName_fallback) simp
  show "fst (findUniqueName ascii_env ''Groceries'' ''copy'' Map.empty) = ''Groceries (copy)''"
    by (simp add: findUniqueName_def Let_def plain_candidate_def)
  show "fst (findUniqueName ascii_env ''Groceries'' ''copy'' [''groceries (copy)'' \<mapsto> 1])
          = ''Groceries (copy 2)''"
    by (simp add: findUniqueName_def Let_def candidate_eval numbered_loop.simps [of _ _ _ _ 2]
          ascii_env_def ascii_lower_def)
qed

theorem findUniqueName_first_free_witness:
  "findUniqueName ascii_env ''Groceries'' ''copy'' Map.empty =
     (''Groceries (copy)'', [''groceries (copy)'' \<mapsto> -1]) \<and>
   findUniqueName ascii_env ''Groceries'' ''copy'' [''groceries (copy)'' \<mapsto> 1] =
     (''Groceries (copy 2)'', [''groceries (copy)'' \<mapsto> 1, ''groceries (copy 2)'' \<mapsto> -1]) \<and>
   findUniqueName ascii_env ''Groceries'' ''copy'' (all_taken ascii_env ''Groceries'' ''copy'') =
     (''Groceries (copy 9999)'', all_taken ascii_env ''Groceries'' ''copy'')"
proof -
  have "findUniqueName ascii_env ''Groceries'' ''copy'' Map.empty =
          (''Groceries (copy)'', [''groceries (copy)'' \<mapsto> -1])"
    using findUniqueName_first_free [of ascii_env "''Groceries''" "''copy''" Map.empty 2,
        THEN conjunct2, THEN conjunct2, THEN conjunct1]
    by (simp add: candidate_eval groceries_key)
  moreover have "findUniqueName ascii_env ''Groceries'' ''copy'' [''groceries (copy)'' \<mapsto> 1] =
          (''Groceries (copy 2)'', [''groceries (copy)'' \<mapsto> 1, ''groceries (copy 2)'' \<mapsto> -1])"
    using findUniqueName_first_free
      [of ascii_env "''Groceries''" "''copy''" "[''groceries (copy)'' \<mapsto> 1]" 2,
        THEN conjunct2, THEN conjunct2, THEN conjunct2, THEN conjunct1]
    by (simp add: candidate_eval groceries_key groceries_key2)
  moreover have "findUniqueName ascii_env ''Groceries'' ''copy''
                   (all_taken ascii_env ''Groceries'' ''copy'') =
          (''Groceries (copy 9999)'', all_taken ascii_env ''Groceries'' ''copy'')"
    using findUniqueName_first_free
      [of ascii_env "''Groceries''" "''copy''" "all_taken ascii_env ''Groceries'' ''copy''" 2,
        THEN conjunct2, THEN conjunct2, THEN conjunct2, THEN conjunct2, THEN conjunct1]
      all_taken_Some [of _ "''Groceries''" "''copy''" ascii_env]
    by (simp add: numbered_candidate_def Itoa.simps)
  ultimately show ?thesis by simp
qed

text \<open>
  Claim C2, at the input where the code departs from it. The store holds a list under each
  of the 100 names tried for \<open>X\<close> with the suffix \<open>copy\<close>. \<open>findUniqueName\<close> then returns the
  fallback name and leaves the lookup table as it was: the returned name is not a key of the
  table, and the next call for the same base name returns the same name again.
\<close>

theorem findUniqueName_fallback_not_recorded:
  "findUniqueName ascii_env ''X'' ''copy'' (all_taken ascii_env ''X'' ''copy'') =
     (''X (copy 9999)'', all_taken ascii_env ''X'' ''copy'') \<and>
   all_taken ascii_env ''X'' ''copy'' (ToLower ascii_env ''X (copy 9999)'') = None \<and>
   fst (findUniqueName ascii_env ''X'' ''copy''
          (snd (findUniqueName ascii_env ''X'' ''copy'' (all_taken ascii_env ''X'' ''copy''))))
     = ''X (copy 9999)''"
proof -
  have name: "numbered_candidate ''X'' ''copy'' 9999 = ''X (copy 9999)''"
    by (simp add: candidate_eval)
  have r: "findUniqueName ascii_env ''X'' ''copy'' (all_taken ascii_env ''X'' ''copy'') =
             (''X (copy 9999)'', all_taken ascii_env ''X'' ''copy'')"
    using findUniqueName_fallback
      [of "''X''" "''copy''" "all_taken ascii_env ''X'' ''copy''" ascii_env]
    by (simp add: all_taken_Some name)
  have "all_taken ascii_env ''X'' ''copy''
          (ToLower ascii_env (numbered_candidate ''X'' ''copy'' 9999)) = None"
    by (rule all_taken_fallback_free) (rule length_ascii_lower)
  with r show ?thesis by (simp add: name)
qed

section \<open>Import and preview of a JSON document: proofs\<close>

lemmas db_calls =
  tick_def Begin_def Commit_def Rollback_def GetAllLists_def existingLists_def
  CreateListTx_def
  CreateSectionForListTx_def CreateItemTx_def delete_list_def Exec_delete_list_def
  Exec_set_list_active_def Exec_set_item_completed_def Exec_set_item_uncertain_def
  CreateTemplate_def AddTemplateItem_def GetSectionIDByNameTx_def
  SaveItemHistoryWithCountTx_def

lemmas limits =
  MaxItemNameLength_def MaxDescriptionLength_def MaxSectionNameLength_def
  MaxListNameLength_def

lemmas fixtures = empty_db_def db_with_list_def json_doc_def one_item_list_def csv_header_def

lemmas ascii = ascii_env_def ascii_lower_def ascii_trim_def ascii_space_def ascii_atoi_def

lemmas json_import =
  importJSON_def json_loops_def json_start_def import_list_def create_list_def
  import_section_def import_item_def import_template_def import_history_def
  existing_names_def

lemma long_name_not_reserved: "length n > 9 \<Longrightarrow> n \<noteq> ''[HISTORY]''"
  by auto

lemma import_list_long:
  "length (el_Name l) > MaxListNameLength \<Longrightarrow> import_list E cr sfx v l = v"
  by (auto simp: import_list_def MaxListNameLength_def)

lemma foldl_filter_id:
  assumes "\<And>v x. \<not> P x \<Longrightarrow> f v x = v"
  shows "foldl f v xs = foldl f v (filter P xs)"
  using assms by (induction xs arbitrary: v) auto



lemma import_list_skip:
  "existingNames v (ToLower E (el_Name l)) \<noteq> None \<Longrightarrow>
   length (el_Name l) \<le> MaxListNameLength \<Longrightarrow>
   import_list E ''skip'' sfx v l = skip_counted v"
  by (auto simp: import_list_def skip_counted_def)

lemma create_list_skip_counted: "create_list E (skip_counted v) name l = skip_counted (create_list E v name l)"
  by (simp add: create_list_def skip_counted_def split: prod.splits option.splits)

lemma import_list_skip_counted:
  "import_list E cr sfx (skip_counted v) l = skip_counted (import_list E cr sfx v l)"
proof -
  have b: "v'\<lparr>skippedLists := skippedLists v' + 1\<rparr> = skip_counted v'" for v' :: json_vars
    by (simp add: skip_counted_def)
  have s: "sess (skip_counted v) = sess v" "existingNames (skip_counted v) = existingNames v"
    "(skip_counted v)\<lparr>sess := s1\<rparr> = skip_counted (v\<lparr>sess := s1\<rparr>)"
    "(skip_counted v)\<lparr>existingNames := m\<rparr> = skip_counted (v\<lparr>existingNames := m\<rparr>)" for s1 m
    by (simp_all add: skip_counted_def)
  show ?thesis
    unfolding import_list_def b
    by (simp add: s create_list_skip_counted split: prod.splits option.splits bool.splits)
qed

lemma import_template_skip_counted:
  "import_template E (skip_counted v) t = skip_counted (import_template E v t)"
  by (simp add: import_template_def skip_counted_def split: prod.splits option.splits)

lemma import_history_skip_counted:
  "import_history E (skip_counted v) h = skip_counted (import_history E v h)"
  by (simp add: import_history_def skip_counted_def Let_def split: prod.splits)

lemma foldl_commute:
  assumes "\<And>v x. f (g v) x = g (f v x)"
  shows "foldl f (g v) xs = g (foldl f v xs)"
  using assms by (induction xs arbitrary: v) simp_all

lemma import_list_skip_existing:
  "existingNames (import_list E ''skip'' sfx v l) = existingNames v"
  by (simp add: import_list_def create_list_def split: prod.splits option.splits)

lemma import_lists_skip_existing:
  "existingNames (foldl (import_list E ''skip'' sfx) v ls) = existingNames v"
  by (induction ls arbitrary: v) (simp_all add: import_list_skip_existing)

lemma json_loops_skip_frame:
  assumes "existing_names E (existingLists E d0) (ToLower E (el_Name l)) \<noteq> None"
    and "length (el_Name l) \<le> MaxListNameLength"
  shows "json_loops E ''skip'' sfx (with_lists d (xs @ l # ys)) (json_start E d0) =
         skip_counted (json_loops E ''skip'' sfx (with_lists d (xs @ ys)) (json_start E d0))"
proof -
  let ?v = "foldl (import_list E ''skip'' sfx) (json_start E d0) xs"
  have "existingNames ?v = existing_names E (existingLists E d0)"
    by (simp add: import_lists_skip_existing json_start_def)
  with assms have "import_list E ''skip'' sfx ?v l = skip_counted ?v"
    by (intro import_list_skip) simp_all
  then have "foldl (import_list E ''skip'' sfx) (json_start E d0) (xs @ l # ys) =
             skip_counted (foldl (import_list E ''skip'' sfx) (json_start E d0) (xs @ ys))"
    by (simp add: foldl_commute [where g = skip_counted] import_list_skip_counted)
  then show ?thesis
    by (simp add: json_loops_def with_lists_def foldl_commute [where g = skip_counted]
          import_template_skip_counted
          import_history_skip_counted)
qed

lemma importJSON_store:
  "snd (importJSON E d0 (Inr d) cr sfx) =
     (if begin_fails E then d0
      else if commit_fails E then Rollback (sess (json_loops E cr sfx d (json_start E d0)))
      else Commit (sess (json_loops E cr sfx d (json_start E d0))))"
  by (simp add: importJSON_def Let_def)


lemma preview_items_long:
  "it \<in> set its \<Longrightarrow> length (ei_Name it) > MaxItemNameLength \<Longrightarrow>
   preview_items ln its \<noteq> None"
  by (induction its) auto

lemma preview_sections_long:
  "sec \<in> set secs \<Longrightarrow> it \<in> set (es_Items sec) \<Longrightarrow>
   length (ei_Name it) > MaxItemNameLength \<Longrightarrow>
   \<exists>msg. preview_sections ln secs n = Inl msg"
proof (induction secs arbitrary: n)
  case Nil
  then show ?case by simp
next
  case (Cons s secs)
  show ?case
  proof (cases "sec = s")
    case True
    with Cons.prems preview_items_long [of it "es_Items s" ln] show ?thesis
      by (auto split: option.splits)
  next
    case False
    with Cons show ?thesis
      by (auto split: option.splits)
  qed
qed

lemma preview_lists_long:
  "l \<in> set ls \<Longrightarrow> sec \<in> set (el_Sections l) \<Longrightarrow> it \<in> set (es_Items sec) \<Longrightarrow>
   length (ei_Name it) > MaxItemNameLength \<Longrightarrow>
   \<exists>msg. preview_lists E ex p ls = Inl msg"
proof (induction ls arbitrary: p)
  case Nil
  then show ?case by simp
next
  case (Cons a ls)
  show ?case
  proof (cases "l = a")
    case True
    with Cons.prems preview_sections_long [of sec "el_Sections a" it "el_Name a" 0]
    show ?thesis
      by (auto split: sum.splits)
  next
    case False
    with Cons.prems have "\<exists>msg. preview_lists E ex p' ls = Inl msg" for p'
      by (intro Cons.IH) simp_all
    then show ?thesis
      by (auto simp: Let_def split: sum.splits)
  qed
qed

lemma previewJSONImport_long_item:
  assumes "l \<in> set (Lists (Data d))" "sec \<in> set (el_Sections l)" "it \<in> set (es_Items sec)"
    and "length (ei_Name it) > MaxItemNameLength"
  shows "\<exists>msg. previewJSONImport E d0 (Inr d) = invalid_preview msg"
proof (cases "App d \<noteq> ''koffan'' \<and> App d \<noteq> ''''")
  case True
  then have "previewJSONImport E d0 (Inr d) =
               invalid_preview ''This file was not exported from Koffan''"
    by (simp add: previewJSONImport_def)
  then show ?thesis by blast
next
  case False
  from preview_lists_long [OF assms] obtain msg where
    "preview_lists E
       (foldl (\<lambda>m l. m(ToLower E (list_name l) := True)) (\<lambda>k. False) (existingLists E d0))
       \<lparr>Valid = True, Error = '''', Format = ''json'',
        ListsCount = length (Lists (Data d)), ItemsCount = 0,
        TemplatesCount = length (Templates (Data d)),
        HistoryCount = length (History (Data d)),
        PreviewLists = [], ConflictingLists = []\<rparr> (Lists (Data d)) = Inl msg"
    by blast
  with False show ?thesis
    by (auto simp: previewJSONImport_def Let_def)
qed

lemma import_item_truncates:
  assumes "length (ei_Name it) > MaxItemNameLength" "\<not> call_fails E (calls s)"
  shows "\<exists>s'. import_item E sid (s, ord, n) it = (s', ord + 1, n + 1) \<and>
           map (\<lambda>r. (item_section_id r, item_name r, item_sort_order r)) (item_rows (tx s')) =
             map (\<lambda>r. (item_section_id r, item_name r, item_sort_order r)) (item_rows (tx s))
               @ [(sid, take MaxItemNameLength (ei_Name it), ord)] \<and>
           length (take MaxItemNameLength (ei_Name it)) = MaxItemNameLength"
proof -
  have keep: "map (\<lambda>r. (item_section_id r, item_name r, item_sort_order r))
                (map (\<lambda>r. if item_id r = i then r\<lparr>item_completed := True\<rparr> else r) rs) =
              map (\<lambda>r. (item_section_id r, item_name r, item_sort_order r)) rs"
             "map (\<lambda>r. (item_section_id r, item_name r, item_sort_order r))
                (map (\<lambda>r. if item_id r = i then r\<lparr>item_uncertain := True\<rparr> else r) rs) =
              map (\<lambda>r. (item_section_id r, item_name r, item_sort_order r)) rs"
    for i and rs :: "item_row list"
    by (induction rs) simp_all
  obtain item s1 where c: "CreateItemTx E s sid (take MaxItemNameLength (ei_Name it))
        (if length (ei_Description it) > MaxDescriptionLength
         then take MaxDescriptionLength (ei_Description it) else ei_Description it) ord
        = (Some item, s1)"
      and rows: "map (\<lambda>r. (item_section_id r, item_name r, item_sort_order r)) (item_rows (tx s1)) =
             map (\<lambda>r. (item_section_id r, item_name r, item_sort_order r)) (item_rows (tx s))
               @ [(sid, take MaxItemNameLength (ei_Name it), ord)]"
    using assms(2) by (simp add: CreateItemTx_def Let_def tick_def)
  have flags: "map (\<lambda>r. (item_section_id r, item_name r, item_sort_order r))
                 (item_rows (tx (Exec_set_item_completed E s2 i))) =
               map (\<lambda>r. (item_section_id r, item_name r, item_sort_order r)) (item_rows (tx s2))"
              "map (\<lambda>r. (item_section_id r, item_name r, item_sort_order r))
                 (item_rows (tx (Exec_set_item_uncertain E s2 i))) =
               map (\<lambda>r. (item_section_id r, item_name r, item_sort_order r)) (item_rows (tx s2))"
    for s2 i
    by (simp_all add: Exec_set_item_completed_def Exec_set_item_uncertain_def tick_def keep)
  show ?thesis
    using assms(1) c rows
    by (simp add: import_item_def Let_def flags)
qed

text \<open>
  Claim C9. The preview refuses, with status 400, every document whose app tag is neither
  \<open>koffan\<close> nor empty; the import never reads the tag: changing it changes neither the
  response nor the store the import leaves behind.
\<close>

theorem app_tag_checked_by_preview_only:
  "(App d \<noteq> ''koffan'' \<and> App d \<noteq> '''' \<longrightarrow>
      previewJSONImport E d0 (Inr d) =
        Response 400 (PreviewJson
          \<lparr>Valid = False, Error = ''This file was not exported from Koffan'', Format = '''',
           ListsCount = 0, ItemsCount = 0, TemplatesCount = 0, HistoryCount = 0,
           PreviewLists = [], ConflictingLists = []\<rparr>)) \<and>
   importJSON E d0 (Inr (d\<lparr>App := a\<rparr>)) cr sfx = importJSON E d0 (Inr d) cr sfx"
  by (simp add: previewJSONImport_def invalid_preview_def importJSON_def json_loops_def)

theorem app_tag_checked_by_preview_only_witness:
  "previewJSONImport ascii_env empty_db
     (Inr (json_doc ''other'' [one_item_list ''L'' ''S'' ''milk''] [])) =
     Response 400 (PreviewJson
       \<lparr>Valid = False, Error = ''This file was not exported from Koffan'', Format = '''',
        ListsCount = 0, ItemsCount = 0, TemplatesCount = 0, HistoryCount = 0,
        PreviewLists = [], ConflictingLists = []\<rparr>) \<and>
   fst (importJSON ascii_env empty_db
     (Inr (json_doc ''other'' [one_item_list ''L'' ''S'' ''milk''] [])) ''skip'' ''copy'') =
     Response 200 (ImportJsonSummary 1 1 0 0 0) \<and>
   importJSON ascii_env empty_db
     (Inr (json_doc ''other'' [one_item_list ''L'' ''S'' ''milk''] [])) ''skip'' ''copy'' =
   importJSON ascii_env empty_db
     (Inr (json_doc ''koffan'' [one_item_list ''L'' ''S'' ''milk''] [])) ''skip'' ''copy''"
proof -
  have app: "App (json_doc ''other'' ls ts) = ''other''"
    "(json_doc ''koffan'' ls ts)\<lparr>App := ''other''\<rparr> = json_doc ''other'' ls ts" for ls ts
    by (simp_all add: json_doc_def)
  have run: "fst (importJSON ascii_env empty_db
     (Inr (json_doc ''koffan'' [one_item_list ''L'' ''S'' ''milk''] [])) ''skip'' ''copy'') =
     Response 200 (ImportJsonSummary 1 1 0 0 0)"
    by (simp add: json_import db_calls limits fixtures ascii_env_def Let_def)
  have preview: "previewJSONImport ascii_env empty_db
     (Inr (json_doc ''other'' [one_item_list ''L'' ''S'' ''milk''] [])) =
     Response 400 (PreviewJson
       \<lparr>Valid = False, Error = ''This file was not exported from Koffan'', Format = '''',
        ListsCount = 0, ItemsCount = 0, TemplatesCount = 0, HistoryCount = 0,
        PreviewLists = [], ConflictingLists = []\<rparr>)"
    using app_tag_checked_by_preview_only
      [of "json_doc ''other'' [one_item_list ''L'' ''S'' ''milk''] []" ascii_env empty_db,
       THEN conjunct1]
    by (simp add: app)
  have same: "importJSON ascii_env empty_db
     (Inr (json_doc ''other'' [one_item_list ''L'' ''S'' ''milk''] [])) ''skip'' ''copy'' =
   importJSON ascii_env empty_db
     (Inr (json_doc ''koffan'' [one_item_list ''L'' ''S'' ''milk''] [])) ''skip'' ''copy''"
    using app_tag_checked_by_preview_only
      [of "json_doc ''koffan'' [one_item_list ''L'' ''S'' ''milk''] []" ascii_env empty_db
          "''other''" "''skip''" "''copy''", THEN conjunct2]
    by (simp add: app)
  show ?thesis
    by (simp add: preview same run)
qed

text \<open>
  Claim C10. In the JSON import an uploaded list whose name is longer than 100 bytes leaves
  every variable of the loop as it was: no statement is issued for it, so no row is created
  and none of its sections or items is imported, and no counter moves, neither the imported
  nor the skipped lists. Hence the import of a document, response and store alike, is the
  import of the document without its lists of that kind. The name is not truncated.
\<close>

theorem long_list_name_dropped:
  "(length (el_Name l) > MaxListNameLength \<longrightarrow> import_list E cr sfx v l = v) \<and>
   importJSON E d0 (Inr d) cr sfx =
     importJSON E d0
       (Inr (with_lists d
          (filter (\<lambda>l. \<not> length (el_Name l) > MaxListNameLength) (Lists (Data d)))))
       cr sfx"
proof -
  have "foldl (import_list E cr sfx) v' (Lists (Data d)) =
        foldl (import_list E cr sfx) v'
          (filter (\<lambda>l. \<not> length (el_Name l) > MaxListNameLength) (Lists (Data d)))" for v'
    by (rule foldl_filter_id) (simp add: import_list_long)
  then show ?thesis
    by (simp add: importJSON_def json_loops_def with_lists_def import_list_long)
qed

theorem long_list_name_dropped_witness:
  "length (el_Name (one_item_list (replicate 101 CHR ''a'') ''S'' ''milk'')) = 101 \<and>
   import_list ascii_env ''replace'' ''copy'' (json_start ascii_env empty_db)
     (one_item_list (replicate 101 CHR ''a'') ''S'' ''milk'') = json_start ascii_env empty_db \<and>
   importJSON ascii_env empty_db
     (Inr (json_doc ''koffan'' [one_item_list (replicate 101 CHR ''a'') ''S'' ''milk''] []))
     ''replace'' ''copy'' = (Response 200 (ImportJsonSummary 0 0 0 0 0), empty_db)"
proof -
  have empty: "importJSON ascii_env empty_db (Inr (json_doc ''koffan'' [] [])) ''replace''
                 ''copy'' = (Response 200 (ImportJsonSummary 0 0 0 0 0), empty_db)"
    by (simp add: json_import db_calls fixtures ascii_env_def)
  have doc: "with_lists (json_doc ''koffan'' ls []) ls' = json_doc ''koffan'' ls' []" for ls ls'
    by (simp add: with_lists_def json_doc_def)
  have len: "length (el_Name (one_item_list (replicate 101 CHR ''a'') ''S'' ''milk'')) = 101"
    by (simp add: one_item_list_def)
  have lists: "Lists (Data (json_doc ''koffan'' ls [])) = ls" for ls
    by (simp add: json_doc_def)
  note inst = long_list_name_dropped
      [of "one_item_list (replicate 101 CHR ''a'') ''S'' ''milk''" ascii_env "''replace''"
          "''copy''" "json_start ascii_env empty_db" empty_db
          "json_doc ''koffan'' [one_item_list (replicate 101 CHR ''a'') ''S'' ''milk''] []"]
  have step: "import_list ascii_env ''replace'' ''copy'' (json_start ascii_env empty_db)
     (one_item_list (replicate 101 CHR ''a'') ''S'' ''milk'') = json_start ascii_env empty_db"
    using inst [THEN conjunct1] by (simp add: len MaxListNameLength_def)
  have run: "importJSON ascii_env empty_db
     (Inr (json_doc ''koffan'' [one_item_list (replicate 101 CHR ''a'') ''S'' ''milk''] []))
     ''replace'' ''copy'' = (Response 200 (ImportJsonSummary 0 0 0 0 0), empty_db)"
    using inst [THEN conjunct2] by (simp add: lists len MaxListNameLength_def doc empty)
  show ?thesis
    by (simp add: len step run)
qed

lemma import_item_cut: "import_item E sid st (cut_item it) = import_item E sid st it"
proof -
  have name: "(if length (ei_Name (cut_item it)) > MaxItemNameLength
               then take MaxItemNameLength (ei_Name (cut_item it)) else ei_Name (cut_item it)) =
              (if length (ei_Name it) > MaxItemNameLength
               then take MaxItemNameLength (ei_Name it) else ei_Name it)"
    by (simp add: cut_item_def)
  have rest: "ei_Description (cut_item it) = ei_Description it"
    "ei_Completed (cut_item it) = ei_Completed it" "ei_Uncertain (cut_item it) = ei_Uncertain it"
    by (simp_all add: cut_item_def)
  show ?thesis
    unfolding import_item_def name rest ..
qed

lemma import_items_cut:
  "foldl (import_item E sid) st (es_Items (cut_section sec)) =
   foldl (import_item E sid) st (es_Items sec)"
  by (simp add: cut_section_def foldl_map import_item_cut)

lemma import_section_cut: "import_section E lid st (cut_section sec) = import_section E lid st sec"
proof -
  have "es_Name (cut_section sec) = es_Name sec" by (simp add: cut_section_def)
  then show ?thesis
    by (simp add: import_section_def import_items_cut split: prod.splits option.splits)
qed

lemma import_sections_cut:
  "foldl (import_section E lid) st (el_Sections (cut_list l)) =
   foldl (import_section E lid) st (el_Sections l)"
  by (simp add: cut_list_def foldl_map import_section_cut)

lemma create_list_cut: "create_list E v name (cut_list l) = create_list E v name l"
proof -
  have "el_Icon (cut_list l) = el_Icon l" "el_IsActive (cut_list l) = el_IsActive l"
    by (simp_all add: cut_list_def)
  then show ?thesis
    by (simp add: create_list_def import_sections_cut split: prod.splits option.splits)
qed

lemma import_list_cut: "import_list E cr sfx v (cut_list l) = import_list E cr sfx v l"
proof -
  have name: "el_Name (cut_list l) = el_Name l" by (simp add: cut_list_def)
  show ?thesis
    unfolding import_list_def name create_list_cut ..
qed

lemma importJSON_cut: "importJSON E d0 (Inr (item_names_cut d)) cr sfx = importJSON E d0 (Inr d) cr sfx"
  by (simp add: importJSON_def json_loops_def item_names_cut_def with_lists_def foldl_map
        import_list_cut)

lemma e_acute_Suc: "e_acute (Suc n) = CHR 0xC3 # CHR 0xA9 # e_acute n"
  by (simp add: e_acute_def)

lemma length_e_acute: "length (e_acute n) = 2 * n"
  by (induction n) (simp_all add: e_acute_def)

lemma character_count_e_acute: "character_count (e_acute n) = n"
  by (induction n) (simp_all add: e_acute_def character_count_def continuation_byte_def)

lemma take_e_acute: "k \<le> n \<Longrightarrow> take (2 * k) (e_acute n) = e_acute k"
proof (induction n arbitrary: k)
  case 0
  then show ?case by (simp add: e_acute_def)
next
  case (Suc n)
  show ?case
  proof (cases k)
    case 0
    then show ?thesis by (simp add: e_acute_def)
  next
    case (Suc j)
    with Suc.prems Suc.IH [of j] show ?thesis by (simp add: e_acute_Suc)
  qed
qed


lemma importJSON_one_item:
  assumes "\<not> begin_fails E" "\<not> commit_fails E"
    and "\<not> call_fails E 0" "\<not> call_fails E 1" "\<not> call_fails E 2"
    and "listName \<noteq> ''[HISTORY]''" "length listName \<le> MaxListNameLength"
    and "existing_names E (existingLists E d0) (ToLower E listName) = None"
    and "length name > MaxItemNameLength"
  shows "fst (importJSON E d0
           (Inr (json_doc app [one_item_list listName sectionName name] [])) cr sfx) =
           Response 200 (ImportJsonSummary 1 1 0 0 0)"
    and "map item_name (item_rows (tabs (snd (importJSON E d0
           (Inr (json_doc app [one_item_list listName sectionName name] [])) cr sfx)))) =
         map item_name (item_rows (tabs d0)) @ [take MaxItemNameLength name]"
  using assms
  by (simp_all add: importJSON_def json_loops_def json_start_def import_list_def create_list_def
        import_section_def import_item_def import_template_def import_history_def
        json_doc_def one_item_list_def Begin_def Commit_def tick_def CreateListTx_def
        CreateSectionForListTx_def CreateItemTx_def Let_def
        MaxDescriptionLength_def numeral_2_eq_2)

text \<open>
  Claim C4, as amended. Lengths are byte lengths, as Go's \<open>len\<close> counts them, not characters.
  Where a document holds an item whose name is longer than 200 bytes, the preview answers 400
  with a response marked invalid, whatever else the document holds; the preview writes
  nothing. The import never refuses such an item and handles it as the item named by the first
  200 bytes of its name: the import of a document, response and store alike, is the import of
  the document with every item name cut down to its first 200 bytes. Whether the item is
  imported is then decided as for any other item. Where the loop over the items of a section
  reaches it and the store accepts the statement, the item is there under the cut name, in
  the section and at the position of the loop, and is counted as imported. So it is for the
  whole import of a document that holds one list with one section and one item, when the
  list's name is not reserved, within its limit and not yet in the store, and the three
  statements and the transaction succeed: the answer is 200 with one list and one item
  imported, and the store holds one more item, named by the first 200 bytes.
\<close>

theorem long_item_name_preview_rejects_import_truncates:
  "(l \<in> set (Lists (Data d)) \<and> sec \<in> set (el_Sections l) \<and> it \<in> set (es_Items sec) \<and>
    length (ei_Name it) > MaxItemNameLength \<longrightarrow>
      (\<exists>p. previewJSONImport E d0 (Inr d) = Response 400 (PreviewJson p) \<and> \<not> Valid p)) \<and>
   importJSON E d0 (Inr d) cr sfx = importJSON E d0 (Inr (item_names_cut d)) cr sfx \<and>
   (length (ei_Name it) > MaxItemNameLength \<and> \<not> call_fails E (calls s) \<longrightarrow>
      (\<exists>s'. import_item E sid (s, ord, n) it = (s', ord + 1, n + 1) \<and>
         map (\<lambda>r. (item_section_id r, item_name r, item_sort_order r)) (item_rows (tx s')) =
           map (\<lambda>r. (item_section_id r, item_name r, item_sort_order r)) (item_rows (tx s))
             @ [(sid, take MaxItemNameLength (ei_Name it), ord)] \<and>
         length (take MaxItemNameLength (ei_Name it)) = MaxItemNameLength)) \<and>
   (\<not> begin_fails E \<and> \<not> commit_fails E \<and>
    \<not> call_fails E 0 \<and> \<not> call_fails E 1 \<and> \<not> call_fails E 2 \<and>
    listName \<noteq> ''[HISTORY]'' \<and> length listName \<le> MaxListNameLength \<and>
    existing_names E (existingLists E d0) (ToLower E listName) = None \<and>
    length name > MaxItemNameLength \<longrightarrow>
      fst (importJSON E d0 (Inr (json_doc app [one_item_list listName sectionName name] []))
             cr sfx) = Response 200 (ImportJsonSummary 1 1 0 0 0) \<and>
      map item_name (item_rows (tabs (snd (importJSON E d0
          (Inr (json_doc app [one_item_list listName sectionName name] [])) cr sfx)))) =
        map item_name (item_rows (tabs d0)) @ [take MaxItemNameLength name])"
proof (intro conjI impI)
  assume "l \<in> set (Lists (Data d)) \<and> sec \<in> set (el_Sections l) \<and> it \<in> set (es_Items sec) \<and>
          length (ei_Name it) > MaxItemNameLength"
  then obtain msg where "previewJSONImport E d0 (Inr d) = invalid_preview msg"
    using previewJSONImport_long_item [of l d sec it E d0] by blast
  then show "\<exists>p. previewJSONImport E d0 (Inr d) = Response 400 (PreviewJson p) \<and> \<not> Valid p"
    by (simp add: invalid_preview_def)
next
  show "importJSON E d0 (Inr d) cr sfx = importJSON E d0 (Inr (item_names_cut d)) cr sfx"
    by (simp add: importJSON_cut)
next
  assume "length (ei_Name it) > MaxItemNameLength \<and> \<not> call_fails E (calls s)"
  then show "\<exists>s'. import_item E sid (s, ord, n) it = (s', ord + 1, n + 1) \<and>
      map (\<lambda>r. (item_section_id r, item_name r, item_sort_order r)) (item_rows (tx s')) =
        map (\<lambda>r. (item_section_id r, item_name r, item_sort_order r)) (item_rows (tx s))
          @ [(sid, take MaxItemNameLength (ei_Name it), ord)] \<and>
      length (take MaxItemNameLength (ei_Name it)) = MaxItemNameLength"
    by (intro import_item_truncates) simp_all
next
  assume h: "\<not> begin_fails E \<and> \<not> commit_fails E \<and>
    \<not> call_fails E 0 \<and> \<not> call_fails E 1 \<and> \<not> call_fails E 2 \<and>
    listName \<noteq> ''[HISTORY]'' \<and> length listName \<le> MaxListNameLength \<and>
    existing_names E (existingLists E d0) (ToLower E listName) = None \<and>
    length name > MaxItemNameLength"
  then show "fst (importJSON E d0
      (Inr (json_doc app [one_item_list listName sectionName name] [])) cr sfx) =
      Response 200 (ImportJsonSummary 1 1 0 0 0)"
    by (intro importJSON_one_item) simp_all
  from h show "map item_name (item_rows (tabs (snd (importJSON E d0
          (Inr (json_doc app [one_item_list listName sectionName name] [])) cr sfx)))) =
        map item_name (item_rows (tabs d0)) @ [take MaxItemNameLength name]"
    by (intro importJSON_one_item) simp_all
qed

theorem long_item_name_preview_rejects_import_truncates_witness:
  "length (replicate 201 CHR ''a'') > MaxItemNameLength \<and>
   (\<exists>p. previewJSONImport ascii_env empty_db
      (Inr (json_doc ''koffan'' [one_item_list ''L'' ''S'' (replicate 201 CHR ''a'')] [])) =
        Response 400 (PreviewJson p) \<and> \<not> Valid p) \<and>
   (\<exists>s'. import_item ascii_env 2 (Begin empty_db, 0, 0)
           \<lparr>ei_Name = replicate 201 CHR ''a'', ei_Description = '''', ei_Completed = False,
            ei_Uncertain = False\<rparr> = (s', 1, 1) \<and>
         map (\<lambda>r. (item_section_id r, item_name r, item_sort_order r)) (item_rows (tx s')) =
           [(2, replicate 200 CHR ''a'', 0)]) \<and>
   item_names_cut (json_doc ''koffan'' [one_item_list ''L'' ''S'' (replicate 201 CHR ''a'')] []) =
     json_doc ''koffan'' [one_item_list ''L'' ''S'' (replicate 200 CHR ''a'')] [] \<and>
   importJSON ascii_env empty_db
     (Inr (json_doc ''koffan'' [one_item_list ''L'' ''S'' (replicate 201 CHR ''a'')] []))
     ''skip'' ''copy'' =
   importJSON ascii_env empty_db
     (Inr (json_doc ''koffan'' [one_item_list ''L'' ''S'' (replicate 200 CHR ''a'')] []))
     ''skip'' ''copy'' \<and>
   fst (importJSON ascii_env empty_db
     (Inr (json_doc ''koffan'' [one_item_list ''L'' ''S'' (replicate 201 CHR ''a'')] []))
     ''skip'' ''copy'') = Response 200 (ImportJsonSummary 1 1 0 0 0) \<and>
   map item_name (item_rows (tabs (snd (importJSON ascii_env empty_db
     (Inr (json_doc ''koffan'' [one_item_list ''L'' ''S'' (replicate 201 CHR ''a'')] []))
     ''skip'' ''copy'')))) = [replicate 200 CHR ''a'']"
proof -
  let ?it = "\<lparr>ei_Name = replicate 201 CHR ''a'', ei_Description = '''', ei_Completed = False,
              ei_Uncertain = False\<rparr>"
  let ?sec = "\<lparr>es_Name = ''S'', es_Items = [?it]\<rparr>"
  let ?l = "one_item_list ''L'' ''S'' (replicate 201 CHR ''a'')"
  let ?d = "json_doc ''koffan'' [?l] []"
  let ?d' = "json_doc ''koffan'' [one_item_list ''L'' ''S'' (replicate 200 CHR ''a'')] []"
  have long: "length (ei_Name ?it) > MaxItemNameLength"
    by (simp add: MaxItemNameLength_def)
  note inst = long_item_name_preview_rejects_import_truncates
    [of ?l ?d ?sec ?it ascii_env empty_db "''skip''" "''copy''" "Begin empty_db" 2 0 0
        "''L''" "replicate 201 CHR ''a''" "''koffan''" "''S''"]
  have mem: "?l \<in> set (Lists (Data ?d)) \<and> ?sec \<in> set (el_Sections ?l) \<and>
             ?it \<in> set (es_Items ?sec)"
    by (simp add: json_doc_def one_item_list_def)
  have preview: "\<exists>p. previewJSONImport ascii_env empty_db (Inr ?d) =
                   Response 400 (PreviewJson p) \<and> \<not> Valid p"
    using inst [THEN conjunct1] mem long by blast
  have ok: "\<not> call_fails ascii_env (calls (Begin empty_db))"
    by (simp add: ascii_env_def)
  have item: "\<exists>s'. import_item ascii_env 2 (Begin empty_db, 0, 0) ?it = (s', 1, 1) \<and>
         map (\<lambda>r. (item_section_id r, item_name r, item_sort_order r)) (item_rows (tx s')) =
           [(2, replicate 200 CHR ''a'', 0)]"
    using inst [THEN conjunct2, THEN conjunct2, THEN conjunct1] ok long
    by (simp add: MaxItemNameLength_def Begin_def empty_db_def)
  have cut: "item_names_cut ?d = ?d'"
    by (simp add: item_names_cut_def with_lists_def json_doc_def one_item_list_def cut_list_def
          cut_section_def cut_item_def MaxItemNameLength_def)
  have same: "importJSON ascii_env empty_db (Inr ?d) ''skip'' ''copy'' =
              importJSON ascii_env empty_db (Inr ?d') ''skip'' ''copy''"
    using inst [THEN conjunct2, THEN conjunct1] by (simp only: cut)
  have clean: "\<not> begin_fails ascii_env \<and> \<not> commit_fails ascii_env \<and>
    \<not> call_fails ascii_env 0 \<and> \<not> call_fails ascii_env 1 \<and> \<not> call_fails ascii_env 2 \<and>
    ''L'' \<noteq> ''[HISTORY]'' \<and> length ''L'' \<le> MaxListNameLength \<and>
    existing_names ascii_env (existingLists ascii_env empty_db) (ToLower ascii_env ''L'') = None \<and>
    length (replicate 201 CHR ''a'') > MaxItemNameLength"
    by (simp add: ascii_env_def limits existing_names_def existingLists_def GetAllLists_def
          empty_db_def)
  note whole = inst [THEN conjunct2, THEN conjunct2, THEN conjunct2, rule_format, OF clean]
  have resp: "fst (importJSON ascii_env empty_db (Inr ?d) ''skip'' ''copy'') =
                Response 200 (ImportJsonSummary 1 1 0 0 0)"
    using whole [THEN conjunct1] .
  have stored: "map item_name (item_rows (tabs (snd
                  (importJSON ascii_env empty_db (Inr ?d) ''skip'' ''copy'')))) =
                [replicate 200 CHR ''a'']"
    using whole [THEN conjunct2] by (simp add: empty_db_def MaxItemNameLength_def)
  show ?thesis
    using preview item cut same resp stored
    by (simp add: MaxItemNameLength_def)
qed

text \<open>
  Claim C4 as stated fails. A name of 201 two-byte characters is stored as its first 100
  characters, not its first 200. A name of 150 such characters, within the 200 characters of
  the claim, is refused by the preview, and the import cuts it down to 100 characters as well.
  And an item with a long name in a list that is skipped is not imported at all.
\<close>

theorem long_item_name_cut_by_bytes_counterexample:
  "character_count (e_acute 201) = 201 \<and>
   fst (importJSON ascii_env empty_db
     (Inr (json_doc ''koffan'' [one_item_list ''L'' ''S'' (e_acute 201)] []))
     ''skip'' ''copy'') = Response 200 (ImportJsonSummary 1 1 0 0 0) \<and>
   map item_name (item_rows (tabs (snd (importJSON ascii_env empty_db
     (Inr (json_doc ''koffan'' [one_item_list ''L'' ''S'' (e_acute 201)] []))
     ''skip'' ''copy'')))) = [e_acute 100] \<and>
   character_count (e_acute 100) = 100 \<and>
   character_count (e_acute 150) = 150 \<and>
   previewJSONImport ascii_env empty_db
     (Inr (json_doc ''koffan'' [one_item_list ''L'' ''S'' (e_acute 150)] [])) =
     Response 400 (PreviewJson
       \<lparr>Valid = False,
        Error = ''Item name too long in list '' @ [CHR 0x27] @ ''L'' @ [CHR 0x27] @ '': ''
                @ e_acute 150,
        Format = '''', ListsCount = 0, ItemsCount = 0, TemplatesCount = 0, HistoryCount = 0,
        PreviewLists = [], ConflictingLists = []\<rparr>) \<and>
   map item_name (item_rows (tabs (snd (importJSON ascii_env empty_db
     (Inr (json_doc ''koffan'' [one_item_list ''L'' ''S'' (e_acute 150)] []))
     ''skip'' ''copy'')))) = [e_acute 100] \<and>
   importJSON ascii_env (db_with_list ''X'')
     (Inr (json_doc ''koffan'' [one_item_list ''x'' ''S'' (replicate 201 CHR ''a'')] []))
     ''skip'' ''copy'' = (Response 200 (ImportJsonSummary 0 0 0 0 1), db_with_list ''X'')"
proof -
  have cut: "take 200 (e_acute 201) = e_acute 100" "take 200 (e_acute 150) = e_acute 100"
    using take_e_acute [of 100 201] take_e_acute [of 100 150] by simp_all
  have run: "importJSON ascii_env empty_db
     (Inr (json_doc ''koffan'' [one_item_list ''L'' ''S'' (e_acute n)] [])) ''skip'' ''copy'' =
       (Response 200 (ImportJsonSummary 1 1 0 0 0),
        empty_db\<lparr>tabs := \<lparr>list_rows = [\<lparr>list_id = 1, list_name = ''L'', list_icon = ''*'',
             list_is_active = False\<rparr>],
           section_rows = [\<lparr>section_id = 2, section_list_id = 1, section_name = ''S'',
             section_sort_order = 0\<rparr>],
           item_rows = [\<lparr>item_id = 3, item_section_id = 2,
             item_name = take 200 (e_acute n), item_description = '''',
             item_completed = False, item_uncertain = False, item_sort_order = 0\<rparr>],
           history_rows = [], next_id = 4\<rparr>\<rparr>)" if "n > 100" for n
    using that
    by (simp add: json_import db_calls limits fixtures ascii_env_def Let_def length_e_acute)
  have preview: "previewJSONImport ascii_env empty_db
     (Inr (json_doc ''koffan'' [one_item_list ''L'' ''S'' (e_acute 150)] [])) =
     Response 400 (PreviewJson
       \<lparr>Valid = False,
        Error = ''Item name too long in list '' @ [CHR 0x27] @ ''L'' @ [CHR 0x27] @ '': ''
                @ e_acute 150,
        Format = '''', ListsCount = 0, ItemsCount = 0, TemplatesCount = 0, HistoryCount = 0,
        PreviewLists = [], ConflictingLists = []\<rparr>)"
    by (simp add: previewJSONImport_def json_doc_def one_item_list_def invalid_preview_def
          length_e_acute limits Let_def)
  have skipped: "importJSON ascii_env (db_with_list ''X'')
     (Inr (json_doc ''koffan'' [one_item_list ''x'' ''S'' (replicate 201 CHR ''a'')] []))
     ''skip'' ''copy'' = (Response 200 (ImportJsonSummary 0 0 0 0 1), db_with_list ''X'')"
    by (simp add: json_import db_calls limits fixtures ascii_env_def ascii_lower_def Let_def)
  show ?thesis
    using preview skipped
    by (simp add: run cut character_count_e_acute)
qed

text \<open>
  Claim C1, at an input where the code departs from it. The upload holds one template and
  nothing else, the store is empty, and the commit fails. The handler answers 500 with
  \<open>Failed to commit import\<close>, and the store it leaves behind holds the template: the row was
  written through the database handle, outside the transaction that is rolled back.
\<close>

theorem importJSON_template_survives_failed_commit:
  "importJSON (ascii_env\<lparr>commit_fails := True\<rparr>) empty_db
     (Inr (json_doc ''koffan'' []
        [\<lparr>et_Name = ''Weekly'', et_Description = '''', et_Items = []\<rparr>])) ''skip'' ''copy'' =
     (Response 500 (ErrorJson ''Failed to commit import''),
      empty_db\<lparr>template_rows := [\<lparr>template_id = 1, template_name = ''Weekly'',
                   template_description = ''''\<rparr>], next_template_id := 2\<rparr>) \<and>
   template_rows empty_db = []"
  by (simp add: json_import db_calls fixtures ascii_env_def Let_def)

section \<open>Import of a CSV table: proofs\<close>

lemma skip_marked_sel:
  "sess (skip_marked k v) = sess v"
  "existingNames (skip_marked k v) = existingNames v"
  "createdLists (skip_marked k v) = createdLists v"
  "createdSections (skip_marked k v) = createdSections v"
  "sectionOrders (skip_marked k v) = sectionOrders v"
  "itemOrders (skip_marked k v) = itemOrders v"
  "importedLists (skip_marked k v) = importedLists v"
  "importedItems (skip_marked k v) = importedItems v"
  "importedHistory (skip_marked k v) = importedHistory v"
  "skippedLists (skip_marked k v) = skippedLists v + 1"
  "skippedListNames (skip_marked k v) = (skippedListNames v)(k := True)"
  by (simp_all add: skip_marked_def)

lemma create_csv_item_skip_marked:
  "create_csv_item E (skip_marked k v) sec n d c u = skip_marked k (create_csv_item E v sec n d c u)"
  by (simp add: create_csv_item_def Let_def skip_marked_def split: prod.splits option.splits)

lemma import_history_row_skip_marked:
  "import_history_row E (skip_marked k v) row = skip_marked k (import_history_row E v row)"
  by (simp add: import_history_row_def Let_def GetSectionIDByNameTx_def skip_marked_def
        split: prod.splits option.splits)

lemma get_or_create_section_skip_marked:
  "get_or_create_section E d (skip_marked k v) l lk sn =
     (case get_or_create_section E d v l lk sn of (v', r) \<Rightarrow> (skip_marked k v', r))"
  by (simp add: get_or_create_section_def Let_def skip_marked_def split: prod.splits option.splits)

lemma create_csv_list_skip_marked:
  "create_csv_list E (skip_marked k v) ln lk icon =
     (case create_csv_list E v ln lk icon of (v', r) \<Rightarrow> (skip_marked k v', r))"
  by (simp add: create_csv_list_def skip_marked_def split: prod.splits option.splits)

lemma skip_marked_commute:
  "(skip_marked k v)\<lparr>skippedLists := Suc (skippedLists (skip_marked k v)),
       skippedListNames := (skippedListNames (skip_marked k v))(lk := True)\<rparr> =
   skip_marked k (v\<lparr>skippedLists := Suc (skippedLists v),
       skippedListNames := (skippedListNames v)(lk := True)\<rparr>)"
  by (cases "lk = k") (simp_all add: skip_marked_def fun_upd_twist)

lemma skip_marked_upd:
  "(skip_marked k v)\<lparr>sess := s\<rparr> = skip_marked k (v\<lparr>sess := s\<rparr>)"
  "(skip_marked k v)\<lparr>existingNames := m\<rparr> = skip_marked k (v\<lparr>existingNames := m\<rparr>)"
  by (simp_all add: skip_marked_def)

lemma get_or_create_list_skip_marked:
  "get_or_create_list E cr sfx (skip_marked k v) ln lk icon =
     (case get_or_create_list E cr sfx v ln lk icon of (v', r) \<Rightarrow> (skip_marked k v', r))"
  unfolding get_or_create_list_def
  by (simp add: skip_marked_commute skip_marked_upd create_csv_list_skip_marked
        skip_marked_sel(1-9)
        split: prod.splits option.splits)

lemma place_row_skip_marked:
  "place_row E cr sfx d (skip_marked k v) ln lk icon sn n ds c u =
     skip_marked k (place_row E cr sfx d v ln lk icon sn n ds c u)"
  by (simp add: place_row_def get_or_create_list_skip_marked get_or_create_section_skip_marked
        create_csv_item_skip_marked split: prod.splits option.splits)

lemma import_row_skip_marked:
  assumes "\<not> names_list E k row"
  shows "import_row E cr sfx d (skip_marked k v) row = skip_marked k (import_row E cr sfx d v row)"
proof (cases "row_list_name E row")
  case None
  then consider "length row < 4"
    | "\<not> length row < 4" "TrimSpace E (row ! 0) = ''''"
    | "\<not> length row < 4" "TrimSpace E (row ! 0) \<noteq> ''''" "TrimSpace E (row ! 0) = ''[HISTORY]''"
    by (auto simp: row_list_name_def split: if_splits)
  then show ?thesis
  proof cases
    case 1
    then show ?thesis by (simp add: import_row_def)
  next
    case 2
    then show ?thesis by (simp add: import_row_def)
  next
    case 3
    then show ?thesis by (simp add: import_row_def import_history_row_skip_marked)
  qed
next
  case (Some n)
  then have g: "\<not> length row < 4" "TrimSpace E (row ! 0) \<noteq> ''''"
    "TrimSpace E (row ! 0) \<noteq> ''[HISTORY]''" "n = TrimSpace E (row ! 0)"
    by (auto simp: row_list_name_def split: if_splits)
  from assms Some have ne: "ToLower E (TrimSpace E (row ! 0)) \<noteq> k"
    by (simp add: names_list_def g)
  show ?thesis
  proof (cases "skippedListNames v (ToLower E (TrimSpace E (row ! 0)))")
    case True
    then show ?thesis
      using g ne by (simp add: import_row_def skip_marked_sel)
  next
    case False
    then show ?thesis
      using g ne
      by (simp add: import_row_def skip_marked_sel Let_def place_row_skip_marked)
  qed
qed



lemma row_list_name_None:
  assumes "row_list_name E row = None"
  obtains "length row < 4"
    | "\<not> length row < 4" "TrimSpace E (row ! 0) = ''''"
    | "\<not> length row < 4" "TrimSpace E (row ! 0) \<noteq> ''''" "TrimSpace E (row ! 0) = ''[HISTORY]''"
  using assms by (auto simp: row_list_name_def split: if_splits)

lemma row_list_name_Some:
  assumes "row_list_name E row = Some n"
  shows "\<not> length row < 4" "TrimSpace E (row ! 0) = n" "n \<noteq> ''''" "n \<noteq> ''[HISTORY]''"
  using assms by (auto simp: row_list_name_def split: if_splits)

lemma import_row_nondata:
  assumes "row_list_name E row = None"
  shows "import_row E cr sfx d v row = v \<or>
         import_row E cr sfx d v row = import_history_row E v row"
  using assms
proof (cases rule: row_list_name_None)
  case 1
  then show ?thesis by (simp add: import_row_def)
next
  case 2
  then show ?thesis by (simp add: import_row_def)
next
  case 3
  then show ?thesis by (simp add: import_row_def)
qed

lemma import_row_skipped:
  "row_list_name E row = Some n \<Longrightarrow> skippedListNames v (ToLower E n) \<Longrightarrow>
   import_row E cr sfx d v row = v"
  by (simp add: import_row_def row_list_name_Some)

lemma import_row_data:
  assumes "row_list_name E row = Some n" "\<not> skippedListNames v (ToLower E n)"
  shows "\<exists>icon sn iname idesc c u.
           import_row E cr sfx d v row =
             place_row E cr sfx d v
               (if length n > MaxListNameLength then take MaxListNameLength n else n)
               (ToLower E (if length n > MaxListNameLength then take MaxListNameLength n else n))
               icon sn iname idesc c u"
proof -
  note g = row_list_name_Some [OF assms(1)]
  show ?thesis
    unfolding import_row_def Let_def using g assms(2)
    by (simp only: if_False refl) blast
qed


lemma create_csv_item_frame:
  "existingNames (create_csv_item E v sec n ds c u) = existingNames v"
  "createdLists (create_csv_item E v sec n ds c u) = createdLists v"
  "skippedListNames (create_csv_item E v sec n ds c u) = skippedListNames v"
  by (simp_all add: create_csv_item_def Let_def split: prod.splits option.splits)

lemma get_or_create_section_frame:
  "existingNames (fst (get_or_create_section E d v l lk sn)) = existingNames v"
  "createdLists (fst (get_or_create_section E d v l lk sn)) = createdLists v"
  "skippedListNames (fst (get_or_create_section E d v l lk sn)) = skippedListNames v"
  by (simp_all add: get_or_create_section_def Let_def split: prod.splits option.splits)

lemma create_csv_list_frame:
  "existingNames (fst (create_csv_list E v ln lk icon)) = existingNames v"
  "k \<noteq> lk \<Longrightarrow> createdLists (fst (create_csv_list E v ln lk icon)) k = createdLists v k"
  "skippedListNames (fst (create_csv_list E v ln lk icon)) = skippedListNames v"
  "snd (create_csv_list E v ln lk icon) = Some (l, lk') \<Longrightarrow> lk' = lk"
  by (auto simp: create_csv_list_def split: prod.splits option.splits)

lemma get_or_create_list_skip_collide:
  "existingNames v lk \<noteq> None \<Longrightarrow> createdLists v lk = None \<Longrightarrow>
   get_or_create_list E ''skip'' sfx v ln lk icon = (skip_marked lk v, None)"
  by (auto simp: get_or_create_list_def skip_marked_def)

lemma get_or_create_list_skip_frame:
  "existingNames (fst (get_or_create_list E ''skip'' sfx v ln lk icon)) = existingNames v"
  "k \<noteq> lk \<Longrightarrow>
     skippedListNames (fst (get_or_create_list E ''skip'' sfx v ln lk icon)) k
       = skippedListNames v k"
  by (auto simp: get_or_create_list_def create_csv_list_frame
        split: prod.splits option.splits)

lemma get_or_create_list_skip_created:
  assumes "existingNames v k \<noteq> None" "createdLists v k = None"
  shows "createdLists (fst (get_or_create_list E ''skip'' sfx v ln lk icon)) k = None"
proof (cases "createdLists v lk")
  case (Some l)
  then show ?thesis using assms by (simp add: get_or_create_list_def)
next
  case None
  show ?thesis
  proof (cases "existingNames v lk")
    case free: None
    with assms have "k \<noteq> lk" by auto
    then show ?thesis
      using None free assms by (simp add: get_or_create_list_def create_csv_list_frame)
  next
    case (Some i)
    then show ?thesis
      using None assms by (simp add: get_or_create_list_def)
  qed
qed

lemma get_or_create_list_key:
  "snd (get_or_create_list E ''skip'' sfx v ln lk icon) = Some (l, lk') \<Longrightarrow> lk' = lk"
  by (auto simp: get_or_create_list_def create_csv_list_frame
        split: prod.splits option.splits if_splits)

lemma place_row_skip_collide:
  "existingNames v lk \<noteq> None \<Longrightarrow> createdLists v lk = None \<Longrightarrow>
   place_row E ''skip'' sfx d v ln lk icon sn n ds c u = skip_marked lk v"
  by (simp add: place_row_def get_or_create_list_skip_collide)

lemma place_row_cases:
  obtains (no_list) v1 where
      "v1 = fst (get_or_create_list E cr sfx v ln lk icon)"
      "place_row E cr sfx d v ln lk icon sn n ds c u = v1"
    | (no_section) v1 l lk1 v2 where
      "v1 = fst (get_or_create_list E cr sfx v ln lk icon)"
      "v2 = fst (get_or_create_section E d v1 l lk1 sn)"
      "place_row E cr sfx d v ln lk icon sn n ds c u = v2"
    | (item) v1 l lk1 v2 sec where
      "v1 = fst (get_or_create_list E cr sfx v ln lk icon)"
      "v2 = fst (get_or_create_section E d v1 l lk1 sn)"
      "place_row E cr sfx d v ln lk icon sn n ds c u = create_csv_item E v2 sec n ds c u"
proof (cases "get_or_create_list E cr sfx v ln lk icon")
  case (Pair v1 r)
  show ?thesis
  proof (cases r)
    case None
    with Pair show ?thesis by (intro no_list [of v1]) (simp_all add: place_row_def)
  next
    case (Some p)
    obtain l lk1 where p: "p = (l, lk1)" by (cases p)
    obtain v2 r2 where s: "get_or_create_section E d v1 l lk1 sn = (v2, r2)"
      by (cases "get_or_create_section E d v1 l lk1 sn")
    show ?thesis
    proof (cases r2)
      case None
      with Pair Some p s show ?thesis
        by (intro no_section [of v1 v2 l lk1]) (simp_all add: place_row_def)
    next
      case (Some sec)
      with Pair \<open>r = Some p\<close> p s show ?thesis
        by (intro item [of v1 v2 l lk1 sec]) (simp_all add: place_row_def)
    qed
  qed
qed

lemma place_row_skip_existing:
  "existingNames (place_row E ''skip'' sfx d v ln lk icon sn n ds c u) = existingNames v"
  by (cases rule: place_row_cases [of E "''skip''" sfx v ln lk icon d sn n ds c u])
     (simp_all add: get_or_create_list_skip_frame get_or_create_section_frame
        create_csv_item_frame)

lemma place_row_skip_marks:
  "k \<noteq> lk \<Longrightarrow>
     skippedListNames (place_row E ''skip'' sfx d v ln lk icon sn n ds c u) k
       = skippedListNames v k"
  by (cases rule: place_row_cases [of E "''skip''" sfx v ln lk icon d sn n ds c u])
     (simp_all add: get_or_create_list_skip_frame get_or_create_section_frame
        create_csv_item_frame)

lemma place_row_skip_created:
  assumes "existingNames v k \<noteq> None" "createdLists v k = None"
  shows "createdLists (place_row E ''skip'' sfx d v ln lk icon sn n ds c u) k = None"
  by (cases rule: place_row_cases [of E "''skip''" sfx v ln lk icon d sn n ds c u])
     (simp_all add: get_or_create_list_skip_created [OF assms] get_or_create_section_frame
        create_csv_item_frame)



lemma import_history_row_frame:
  "existingNames (import_history_row E v row) = existingNames v"
  "createdLists (import_history_row E v row) = createdLists v"
  "skippedListNames (import_history_row E v row) = skippedListNames v"
  by (simp_all add: import_history_row_def Let_def split: prod.splits option.splits)

lemma import_row_skip_existing:
  "existingNames (import_row E ''skip'' sfx d v row) = existingNames v"
proof (cases "row_list_name E row")
  case None
  from import_row_nondata [OF this, of "''skip''" sfx d v] show ?thesis
    by (auto simp: import_history_row_frame)
next
  case (Some n)
  show ?thesis
  proof (cases "skippedListNames v (ToLower E n)")
    case True
    with Some show ?thesis by (simp add: import_row_skipped)
  next
    case False
    from import_row_data [OF Some False, of "''skip''" sfx d] show ?thesis
      by (auto simp: place_row_skip_existing)
  qed
qed

lemma import_row_skip_created:
  assumes "existingNames v k \<noteq> None" "createdLists v k = None"
  shows "createdLists (import_row E ''skip'' sfx d v row) k = None"
proof (cases "row_list_name E row")
  case None
  from import_row_nondata [OF this, of "''skip''" sfx d v] assms show ?thesis
    by (auto simp: import_history_row_frame)
next
  case (Some n)
  show ?thesis
  proof (cases "skippedListNames v (ToLower E n)")
    case True
    with Some assms show ?thesis by (simp add: import_row_skipped)
  next
    case False
    from import_row_data [OF Some False, of "''skip''" sfx d] show ?thesis
      by (auto simp: place_row_skip_created [OF assms])
  qed
qed

lemma import_row_skip_marks:
  assumes "\<not> names_list E k row" "row_clear E k row"
  shows "skippedListNames (import_row E ''skip'' sfx d v row) k = skippedListNames v k"
proof (cases "row_list_name E row")
  case None
  from import_row_nondata [OF this, of "''skip''" sfx d v] show ?thesis
    by (auto simp: import_history_row_frame)
next
  case (Some n)
  with assms have n: "ToLower E n \<noteq> k"
    "ToLower E (if length n > MaxListNameLength then take MaxListNameLength n else n) \<noteq> k"
    by (simp_all add: names_list_def row_clear_def)
  show ?thesis
  proof (cases "skippedListNames v (ToLower E n)")
    case True
    with Some show ?thesis by (simp add: import_row_skipped)
  next
    case False
    from import_row_data [OF Some False, of "''skip''" sfx d] obtain icon sn iname idesc c u
      where "import_row E ''skip'' sfx d v row =
               place_row E ''skip'' sfx d v
                 (if length n > MaxListNameLength then take MaxListNameLength n else n)
                 (ToLower E (if length n > MaxListNameLength then take MaxListNameLength n else n))
                 icon sn iname idesc c u"
      by blast
    with n(2) show ?thesis
      by (simp only: place_row_skip_marks [OF n(2) [symmetric]])
  qed
qed

lemma import_row_skip_first:
  assumes "names_list E k row" "row_clear E k row"
    and "existingNames v k \<noteq> None" "createdLists v k = None" "\<not> skippedListNames v k"
  shows "import_row E ''skip'' sfx d v row = skip_marked k v"
proof -
  from assms(1) obtain n where Some: "row_list_name E row = Some n" and k: "ToLower E n = k"
    by (auto simp: names_list_def split: option.splits)
  with assms(2) have fits: "\<not> length n > MaxListNameLength"
    by (simp add: row_clear_def)
  from assms(5) k have "\<not> skippedListNames v (ToLower E n)" by simp
  from import_row_data [OF Some this, of "''skip''" sfx d] fits k assms(3,4) show ?thesis
    by (auto simp: place_row_skip_collide)
qed

lemma import_row_skip_again:
  assumes "names_list E k row" "skippedListNames v k"
  shows "import_row E cr sfx d v row = v"
proof -
  from assms(1) obtain n where Some: "row_list_name E row = Some n" and k: "ToLower E n = k"
    by (auto simp: names_list_def split: option.splits)
  with assms(2) show ?thesis by (simp add: import_row_skipped)
qed

lemma csv_rows_Cons:
  "csv_rows E cr sfx v (row # rows) =
     csv_rows E cr sfx (import_row E cr sfx (default_section_name E) v row) rows"
  by (simp add: csv_rows_def)

lemma csv_rows_Nil: "csv_rows E cr sfx v [] = v"
  by (simp add: csv_rows_def)

lemma csv_rows_marked:
  "csv_rows E ''skip'' sfx (skip_marked k v) rows =
     skip_marked k (csv_rows E ''skip'' sfx v (filter (\<lambda>r. \<not> names_list E k r) rows))"
proof (induction rows arbitrary: v)
  case Nil
  show ?case by (simp add: csv_rows_Nil)
next
  case (Cons row rows)
  show ?case
  proof (cases "names_list E k row")
    case True
    then have "import_row E ''skip'' sfx (default_section_name E) (skip_marked k v) row = skip_marked k v"
      by (rule import_row_skip_again) (simp add: skip_marked_sel)
    with True Cons.IH show ?thesis by (simp add: csv_rows_Cons)
  next
    case False
    then show ?thesis
      by (simp add: csv_rows_Cons import_row_skip_marked Cons.IH)
  qed
qed

lemma csv_rows_skip_frame:
  assumes "existingNames v k \<noteq> None" "createdLists v k = None" "\<not> skippedListNames v k"
    and "list_all (row_clear E k) rows" "list_ex (names_list E k) rows"
  shows "csv_rows E ''skip'' sfx v rows =
           skip_marked k (csv_rows E ''skip'' sfx v (filter (\<lambda>r. \<not> names_list E k r) rows))"
  using assms
proof (induction rows arbitrary: v)
  case Nil
  then show ?case by simp
next
  case (Cons row rows)
  show ?case
  proof (cases "names_list E k row")
    case True
    with Cons.prems
    have "import_row E ''skip'' sfx (default_section_name E) v row = skip_marked k v"
      by (intro import_row_skip_first) simp_all
    with True show ?thesis
      by (simp add: csv_rows_Cons csv_rows_marked)
  next
    case False
    let ?v = "import_row E ''skip'' sfx (default_section_name E) v row"
    have "csv_rows E ''skip'' sfx ?v rows =
            skip_marked k (csv_rows E ''skip'' sfx ?v (filter (\<lambda>r. \<not> names_list E k r) rows))"
      using Cons.prems False
      by (intro Cons.IH)
         (simp_all add: import_row_skip_existing import_row_skip_created import_row_skip_marks)
    with False show ?thesis
      by (simp add: csv_rows_Cons)
  qed
qed

lemma Begin_closed: "Rollback (Begin d0) = d0" "Commit (Begin d0) = d0"
  by (simp_all add: Rollback_def Commit_def Begin_def)

lemma importCSV_store:
  "snd (importCSV E d0 (Inr recs) cr sfx) =
     (if length recs < 2 \<or> begin_fails E then d0
      else if commit_fails E then Rollback (sess (csv_rows E cr sfx (csv_start E d0) (tl recs)))
      else Commit (sess (csv_rows E cr sfx (csv_start E d0) (tl recs))))"
  by (simp add: importCSV_def Let_def)

lemma importCSV_response:
  "length recs \<ge> 2 \<Longrightarrow>
   fst (importCSV E d0 (Inr recs) cr sfx) =
     (if begin_fails E then Response 500 (ErrorJson ''Failed to start transaction'')
      else if commit_fails E then Response 500 (ErrorJson ''Failed to commit import'')
      else (let v = csv_rows E cr sfx (csv_start E d0) (tl recs)
            in Response 200 (ImportCsvSummary (importedLists v) (importedItems v)
                 (importedHistory v) (skippedLists v))))"
  by (simp add: importCSV_def Let_def)

lemma importJSON_response:
  "fst (importJSON E d0 (Inr d) cr sfx) =
     (if begin_fails E then Response 500 (ErrorJson ''Failed to start transaction'')
      else if commit_fails E then Response 500 (ErrorJson ''Failed to commit import'')
      else (let v = json_loops E cr sfx d (json_start E d0)
            in Response 200 (ImportJsonSummary (importedLists v) (importedItems v)
                 (importedTemplates v) (importedHistory v) (skippedLists v))))"
  by (simp add: importJSON_def Let_def)

lemma csv_start_sel:
  "existingNames (csv_start E d0) = existing_names E (existingLists E d0)"
  "createdLists (csv_start E d0) k = None"
  "\<not> skippedListNames (csv_start E d0) k"
  "sess (csv_start E d0) = Begin d0"
  by (simp_all add: csv_start_def)

lemma skip_counted_sel:
  "sess (skip_counted v) = sess v" "importedLists (skip_counted v) = importedLists v"
  "importedItems (skip_counted v) = importedItems v"
  "importedTemplates (skip_counted v) = importedTemplates v"
  "importedHistory (skip_counted v) = importedHistory v"
  "skippedLists (skip_counted v) = skippedLists v + 1"
  by (simp_all add: skip_counted_def)

lemma json_skip_outputs:
  assumes "json_loops E ''skip'' sfx dA (json_start E d0) =
             skip_counted (json_loops E ''skip'' sfx dB (json_start E d0))"
  shows "snd (importJSON E d0 (Inr dA) ''skip'' sfx) = snd (importJSON E d0 (Inr dB) ''skip'' sfx)"
    and "fst (importJSON E d0 (Inr dA) ''skip'' sfx) =
           add_skipped (fst (importJSON E d0 (Inr dB) ''skip'' sfx))"
  by (simp_all add: importJSON_store importJSON_response assms skip_counted_sel Let_def)

lemma csv_skip_outputs:
  assumes "csv_rows E ''skip'' sfx (csv_start E d0) rows =
             skip_marked k (csv_rows E ''skip'' sfx (csv_start E d0) rows')"
    and "rows \<noteq> []"
  shows "snd (importCSV E d0 (Inr (h # rows)) ''skip'' sfx) =
           snd (importCSV E d0 (Inr (h # rows')) ''skip'' sfx)"
    and "rows' \<noteq> [] \<Longrightarrow> fst (importCSV E d0 (Inr (h # rows)) ''skip'' sfx) =
           add_skipped (fst (importCSV E d0 (Inr (h # rows')) ''skip'' sfx))"
proof -
  show "snd (importCSV E d0 (Inr (h # rows)) ''skip'' sfx) =
           snd (importCSV E d0 (Inr (h # rows')) ''skip'' sfx)"
  proof (cases "rows' = []")
    case True
    with assms show ?thesis
      by (cases rows)
         (simp_all add: importCSV_store skip_marked_sel csv_rows_Nil csv_start_sel Begin_closed)
  next
    case False
    with assms show ?thesis
      by (cases rows; cases rows') (simp_all add: importCSV_store skip_marked_sel)
  qed
  show "fst (importCSV E d0 (Inr (h # rows)) ''skip'' sfx) =
           add_skipped (fst (importCSV E d0 (Inr (h # rows')) ''skip'' sfx))" if "rows' \<noteq> []"
    using assms that
    by (cases rows; cases rows') (simp_all add: importCSV_response skip_marked_sel Let_def)
qed

lemmas csv_import =
  importCSV_def csv_rows_def csv_start_def import_row_def place_row_def
  get_or_create_list_def create_csv_list_def get_or_create_section_def create_csv_item_def
  import_history_row_def default_section_name_def existing_names_def

lemma existing_names_fold:
  "dom (foldl (\<lambda>m l. m(ToLower E (list_name l) \<mapsto> list_id l)) m0 rows) =
     dom m0 \<union> (\<lambda>r. ToLower E (list_name r)) ` set rows"
  by (induction rows arbitrary: m0) auto

lemma existing_names_keys:
  "(existing_names E rows k \<noteq> None) = (k \<in> (\<lambda>r. ToLower E (list_name r)) ` set rows)"
  using existing_names_fold [of E Map.empty rows]
  by (simp only: domIff [symmetric] existing_names_def) simp

lemma existing_names_read:
  "(existing_names E (existingLists E d0) k \<noteq> None) =
     (\<not> lists_fail E \<and> k \<in> (\<lambda>r. ToLower E (list_name r)) ` set (list_rows (tabs d0)))"
proof (cases "lists_fail E")
  case True
  then have "existingLists E d0 = []" by (simp add: existingLists_def GetAllLists_def)
  with True show ?thesis by (simp add: existing_names_def)
next
  case False
  then have "existingLists E d0 = list_rows (tabs d0)"
    by (simp add: existingLists_def GetAllLists_def)
  with False show ?thesis by (simp only: existing_names_keys) simp
qed

lemma replicate_a_not_reserved:
  "replicate n CHR ''a'' \<noteq> ''[HISTORY]''" "''[HISTORY]'' \<noteq> replicate n CHR ''a''"
  by (cases n; simp)+

lemma ascii_replicate_a:
  "ascii_trim (replicate n CHR ''a'') = replicate n CHR ''a''"
  "map ascii_lower (replicate n CHR ''a'') = replicate n CHR ''a''"
  by (simp_all add: ascii_trim_def ascii_space_def ascii_lower_def)

text \<open>
  Claim C7, as amended. Both importers look a name up in a table built from the lists that
  \<open>db.GetAllLists\<close> returns; the error of that read is dropped, so the table holds the
  lower-cased names of the stored lists when the read succeeds and nothing when it fails.
  Under \<open>conflict_resolution=skip\<close> an uploaded list whose name is within the 100 bytes of a
  list name and, lower-cased, is a key of that table is left out. In the JSON import the loop
  body issues no statement for it and adds one to the skipped lists; the whole import leaves
  the store it would leave without that list in the document, and its summary differs by one
  skipped list. In the CSV import the rows that name the list leave the transaction and every
  counter as the table without those rows does, except that the list is counted once as
  skipped and remembered as skipped; so the store is the same, and so is the summary but for
  one more skipped list. The one table excluded is a table with a row for another, longer
  list name whose first 100 bytes have the same key: such a row is cut down before the
  conflict check and after the check of the remembered names.
\<close>

theorem skip_leaves_colliding_list_out:
  "(existingNames v (ToLower E (el_Name l)) \<noteq> None \<and> length (el_Name l) \<le> MaxListNameLength
      \<longrightarrow> import_list E ''skip'' sfx v l = v\<lparr>skippedLists := skippedLists v + 1\<rparr>) \<and>
   (existing_names E (existingLists E d0) (ToLower E (el_Name l)) \<noteq> None \<and>
    length (el_Name l) \<le> MaxListNameLength
      \<longrightarrow> json_loops E ''skip'' sfx (with_lists d (xs @ l # ys)) (json_start E d0) =
            skip_counted (json_loops E ''skip'' sfx (with_lists d (xs @ ys)) (json_start E d0)) \<and>
          snd (importJSON E d0 (Inr (with_lists d (xs @ l # ys))) ''skip'' sfx) =
            snd (importJSON E d0 (Inr (with_lists d (xs @ ys))) ''skip'' sfx) \<and>
          fst (importJSON E d0 (Inr (with_lists d (xs @ l # ys))) ''skip'' sfx) =
            add_skipped (fst (importJSON E d0 (Inr (with_lists d (xs @ ys))) ''skip'' sfx))) \<and>
   (existing_names E (existingLists E d0) k \<noteq> None \<and> list_ex (names_list E k) rows \<and>
    list_all (row_clear E k) rows
      \<longrightarrow> csv_rows E ''skip'' sfx (csv_start E d0) rows =
            skip_marked k (csv_rows E ''skip'' sfx (csv_start E d0)
              (filter (\<lambda>r. \<not> names_list E k r) rows)) \<and>
          snd (importCSV E d0 (Inr (h # rows)) ''skip'' sfx) =
            snd (importCSV E d0 (Inr (h # filter (\<lambda>r. \<not> names_list E k r) rows)) ''skip'' sfx) \<and>
          (filter (\<lambda>r. \<not> names_list E k r) rows = [] \<or>
           fst (importCSV E d0 (Inr (h # rows)) ''skip'' sfx) =
             add_skipped (fst (importCSV E d0
               (Inr (h # filter (\<lambda>r. \<not> names_list E k r) rows)) ''skip'' sfx)))) \<and>
   (existing_names E (existingLists E d0) k \<noteq> None) =
     (\<not> lists_fail E \<and> k \<in> (\<lambda>r. ToLower E (list_name r)) ` set (list_rows (tabs d0)))"
proof (intro conjI impI)
  assume "existingNames v (ToLower E (el_Name l)) \<noteq> None \<and>
          length (el_Name l) \<le> MaxListNameLength"
  then show "import_list E ''skip'' sfx v l = v\<lparr>skippedLists := skippedLists v + 1\<rparr>"
    by (simp add: import_list_skip skip_counted_def)
next
  assume h: "existing_names E (existingLists E d0) (ToLower E (el_Name l)) \<noteq> None \<and>
             length (el_Name l) \<le> MaxListNameLength"
  then show frame: "json_loops E ''skip'' sfx (with_lists d (xs @ l # ys)) (json_start E d0) =
      skip_counted (json_loops E ''skip'' sfx (with_lists d (xs @ ys)) (json_start E d0))"
    by (intro json_loops_skip_frame) simp_all
  show "snd (importJSON E d0 (Inr (with_lists d (xs @ l # ys))) ''skip'' sfx) =
          snd (importJSON E d0 (Inr (with_lists d (xs @ ys))) ''skip'' sfx)"
    by (rule json_skip_outputs(1) [OF frame])
  show "fst (importJSON E d0 (Inr (with_lists d (xs @ l # ys))) ''skip'' sfx) =
          add_skipped (fst (importJSON E d0 (Inr (with_lists d (xs @ ys))) ''skip'' sfx))"
    by (rule json_skip_outputs(2) [OF frame])
next
  assume h: "existing_names E (existingLists E d0) k \<noteq> None \<and> list_ex (names_list E k) rows \<and>
             list_all (row_clear E k) rows"
  then show frame: "csv_rows E ''skip'' sfx (csv_start E d0) rows =
      skip_marked k (csv_rows E ''skip'' sfx (csv_start E d0)
        (filter (\<lambda>r. \<not> names_list E k r) rows))"
    by (intro csv_rows_skip_frame) (simp_all add: csv_start_sel)
  from h have rows: "rows \<noteq> []" by auto
  show "snd (importCSV E d0 (Inr (h # rows)) ''skip'' sfx) =
          snd (importCSV E d0 (Inr (h # filter (\<lambda>r. \<not> names_list E k r) rows)) ''skip'' sfx)"
    by (rule csv_skip_outputs(1) [OF frame rows])
  show "filter (\<lambda>r. \<not> names_list E k r) rows = [] \<or>
        fst (importCSV E d0 (Inr (h # rows)) ''skip'' sfx) =
          add_skipped (fst (importCSV E d0
            (Inr (h # filter (\<lambda>r. \<not> names_list E k r) rows)) ''skip'' sfx))"
    using csv_skip_outputs(2) [OF frame rows] by blast
next
  show "(existing_names E (existingLists E d0) k \<noteq> None) =
          (\<not> lists_fail E \<and> k \<in> (\<lambda>r. ToLower E (list_name r)) ` set (list_rows (tabs d0)))"
    by (rule existing_names_read)
qed

theorem skip_leaves_colliding_list_out_witness:
  "existing_names ascii_env (existingLists ascii_env (db_with_list ''X'')) ''x'' = Some 1 \<and>
   ToLower ascii_env (el_Name (one_item_list ''x'' ''S'' ''milk'')) = ''x'' \<and>
   importJSON ascii_env (db_with_list ''X'')
     (Inr (json_doc ''koffan''
        [one_item_list ''x'' ''S'' ''milk'', one_item_list ''Y'' ''S'' ''tea''] []))
     ''skip'' ''copy'' =
     (add_skipped (fst (importJSON ascii_env (db_with_list ''X'')
        (Inr (json_doc ''koffan'' [one_item_list ''Y'' ''S'' ''tea''] [])) ''skip'' ''copy'')),
      snd (importJSON ascii_env (db_with_list ''X'')
        (Inr (json_doc ''koffan'' [one_item_list ''Y'' ''S'' ''tea''] [])) ''skip'' ''copy'')) \<and>
   fst (importJSON ascii_env (db_with_list ''X'')
     (Inr (json_doc ''koffan''
        [one_item_list ''x'' ''S'' ''milk'', one_item_list ''Y'' ''S'' ''tea''] []))
     ''skip'' ''copy'') = Response 200 (ImportJsonSummary 1 1 0 0 1) \<and>
   map list_name (list_rows (tabs (snd (importJSON ascii_env (db_with_list ''X'')
     (Inr (json_doc ''koffan''
        [one_item_list ''x'' ''S'' ''milk'', one_item_list ''Y'' ''S'' ''tea''] []))
     ''skip'' ''copy'')))) = [''X'', ''Y''] \<and>
   filter (\<lambda>r. \<not> names_list ascii_env ''x'' r)
     [csv_row ''x'' ''S'' ''milk'', csv_row ''Y'' ''S'' ''tea'', csv_row ''X'' ''S'' ''eggs''] =
     [csv_row ''Y'' ''S'' ''tea''] \<and>
   list_all (row_clear ascii_env ''x'')
     [csv_row ''x'' ''S'' ''milk'', csv_row ''Y'' ''S'' ''tea'', csv_row ''X'' ''S'' ''eggs''] \<and>
   fst (importCSV ascii_env (db_with_list ''X'')
     (Inr [csv_header, csv_row ''x'' ''S'' ''milk'', csv_row ''Y'' ''S'' ''tea'',
           csv_row ''X'' ''S'' ''eggs'']) ''skip'' ''copy'') =
     Response 200 (ImportCsvSummary 1 1 0 1) \<and>
   map list_name (list_rows (tabs (snd (importCSV ascii_env (db_with_list ''X'')
     (Inr [csv_header, csv_row ''x'' ''S'' ''milk'', csv_row ''Y'' ''S'' ''tea'',
           csv_row ''X'' ''S'' ''eggs'']) ''skip'' ''copy'')))) = [''X'', ''Y''] \<and>
   map item_name (item_rows (tabs (snd (importCSV ascii_env (db_with_list ''X'')
     (Inr [csv_header, csv_row ''x'' ''S'' ''milk'', csv_row ''Y'' ''S'' ''tea'',
           csv_row ''X'' ''S'' ''eggs'']) ''skip'' ''copy'')))) = [''tea'']"
proof -
  let ?l = "one_item_list ''x'' ''S'' ''milk''"
  let ?y = "one_item_list ''Y'' ''S'' ''tea''"
  let ?rows = "[csv_row ''x'' ''S'' ''milk'', csv_row ''Y'' ''S'' ''tea'',
                csv_row ''X'' ''S'' ''eggs'']"
  let ?d0 = "db_with_list ''X''"
  have key: "existing_names ascii_env (existingLists ascii_env ?d0) ''x'' = Some 1"
    by (simp add: existing_names_def GetAllLists_def existingLists_def db_with_list_def
          ascii_env_def ascii_lower_def)
  have name: "ToLower ascii_env (el_Name ?l) = ''x''" "length (el_Name ?l) \<le> MaxListNameLength"
    by (simp_all add: one_item_list_def ascii_env_def ascii_lower_def MaxListNameLength_def)
  have doc: "with_lists (json_doc ''koffan'' [] []) ls = json_doc ''koffan'' ls []" for ls
    by (simp add: with_lists_def json_doc_def)
  have names: "names_list ascii_env ''x'' (csv_row ''x'' ''S'' ''milk'')"
    "\<not> names_list ascii_env ''x'' (csv_row ''Y'' ''S'' ''tea'')"
    "names_list ascii_env ''x'' (csv_row ''X'' ''S'' ''eggs'')"
    by (simp_all add: names_list_def row_list_name_def csv_row_def ascii)
  have fits: "list_all (row_clear ascii_env ''x'') ?rows"
    by (simp add: row_clear_def row_list_name_def csv_row_def ascii MaxListNameLength_def)
  note inst = skip_leaves_colliding_list_out
    [of "json_start ascii_env ?d0" ascii_env ?l "''copy''" ?d0 "json_doc ''koffan'' [] []"
        "[]" "[?y]" "''x''" ?rows csv_header]
  have hyp_json: "existing_names ascii_env (existingLists ascii_env ?d0)
                    (ToLower ascii_env (el_Name ?l)) \<noteq> None \<and>
                  length (el_Name ?l) \<le> MaxListNameLength"
    using key name by simp
  note json = inst [THEN conjunct2, THEN conjunct1, rule_format, OF hyp_json]
  have json_base: "importJSON ascii_env ?d0 (Inr (json_doc ''koffan'' [?y] [])) ''skip'' ''copy''
                     = (Response 200 (ImportJsonSummary 1 1 0 0 0),
                        ?d0\<lparr>tabs := \<lparr>list_rows = [\<lparr>list_id = 1, list_name = ''X'',
                             list_icon = default_icon, list_is_active = True\<rparr>,
                             \<lparr>list_id = 2, list_name = ''Y'', list_icon = ''*'',
                             list_is_active = False\<rparr>],
                           section_rows = [\<lparr>section_id = 3, section_list_id = 2,
                             section_name = ''S'', section_sort_order = 0\<rparr>],
                           item_rows = [\<lparr>item_id = 4, item_section_id = 3, item_name = ''tea'',
                             item_description = '''', item_completed = False,
                             item_uncertain = False, item_sort_order = 0\<rparr>],
                           history_rows = [], next_id = 5\<rparr>\<rparr>)"
    by (simp add: json_import db_calls limits fixtures ascii_env_def ascii_lower_def Let_def)
  have json_store: "snd (importJSON ascii_env ?d0 (Inr (json_doc ''koffan'' [?l, ?y] []))
                      ''skip'' ''copy'') =
                    snd (importJSON ascii_env ?d0 (Inr (json_doc ''koffan'' [?y] []))
                      ''skip'' ''copy'')"
    using json [THEN conjunct2, THEN conjunct1] by (simp add: doc)
  have json_resp: "fst (importJSON ascii_env ?d0 (Inr (json_doc ''koffan'' [?l, ?y] []))
                     ''skip'' ''copy'') =
                   add_skipped (fst (importJSON ascii_env ?d0
                     (Inr (json_doc ''koffan'' [?y] [])) ''skip'' ''copy''))"
    using json [THEN conjunct2, THEN conjunct2] by (simp add: doc)
  have hyp_csv: "existing_names ascii_env (existingLists ascii_env ?d0) ''x'' \<noteq> None \<and>
                 list_ex (names_list ascii_env ''x'') ?rows \<and>
                 list_all (row_clear ascii_env ''x'') ?rows"
    using key names fits by simp
  note csv = inst [THEN conjunct2, THEN conjunct2, THEN conjunct1, rule_format, OF hyp_csv]
  have rest: "filter (\<lambda>r. \<not> names_list ascii_env ''x'' r) ?rows = [csv_row ''Y'' ''S'' ''tea'']"
    using names by simp
  have csv_base: "importCSV ascii_env ?d0 (Inr [csv_header, csv_row ''Y'' ''S'' ''tea''])
                    ''skip'' ''copy''
                    = (Response 200 (ImportCsvSummary 1 1 0 0),
                       ?d0\<lparr>tabs := \<lparr>list_rows = [\<lparr>list_id = 1, list_name = ''X'',
                             list_icon = default_icon, list_is_active = True\<rparr>,
                             \<lparr>list_id = 2, list_name = ''Y'', list_icon = default_icon,
                             list_is_active = False\<rparr>],
                           section_rows = [\<lparr>section_id = 3, section_list_id = 2,
                             section_name = ''S'', section_sort_order = 0\<rparr>],
                           item_rows = [\<lparr>item_id = 4, item_section_id = 3, item_name = ''tea'',
                             item_description = '''', item_completed = False,
                             item_uncertain = False, item_sort_order = 0\<rparr>],
                           history_rows = [], next_id = 5\<rparr>\<rparr>)"
    by (simp add: csv_import db_calls limits fixtures csv_row_def ascii Let_def)
  have csv_store: "snd (importCSV ascii_env ?d0 (Inr (csv_header # ?rows)) ''skip'' ''copy'')
                     = snd (importCSV ascii_env ?d0 (Inr [csv_header, csv_row ''Y'' ''S'' ''tea''])
                         ''skip'' ''copy'')"
    using csv [THEN conjunct2, THEN conjunct1] by (simp only: rest)
  have csv_resp: "fst (importCSV ascii_env ?d0 (Inr (csv_header # ?rows)) ''skip'' ''copy'')
                    = add_skipped (fst (importCSV ascii_env ?d0
                        (Inr [csv_header, csv_row ''Y'' ''S'' ''tea'']) ''skip'' ''copy''))"
    using csv [THEN conjunct2, THEN conjunct2] by (simp only: rest) simp
  show ?thesis
    using key name(1) fits rest
    by (simp add: prod_eq_iff json_store json_resp json_base csv_store csv_resp csv_base)
qed

text \<open>
  Claim C7 as stated fails. When the read of the existing lists fails, an upload of the stored
  name \<open>X\<close> under \<open>skip\<close> creates a second list \<open>X\<close>, in both formats, and counts nothing as
  skipped. A stored name of 107 bytes uploaded again is dropped by the JSON import without
  being counted; the CSV import cuts the uploaded name down to 100 bytes, finds no conflict
  and creates a list. Two CSV rows with a name of 101 bytes whose first 100 bytes are a stored
  name are counted as two skipped lists; and after one such row, a row with the stored name
  itself is left out without being counted: the summary is the same with the row and
  without it. Names of more than 100 bytes come into the store through the \<open>copy\<close> mode:
  the copy of a list with a name of 100 bytes has one of 107.
\<close>

theorem skip_long_or_unread_names_counterexample:
  "fst (importJSON (ascii_env\<lparr>lists_fail := True\<rparr>) (db_with_list ''X'')
     (Inr (json_doc ''koffan'' [one_item_list ''X'' ''S'' ''milk''] [])) ''skip'' ''copy'') =
     Response 200 (ImportJsonSummary 1 1 0 0 0) \<and>
   map list_name (list_rows (tabs (snd (importJSON (ascii_env\<lparr>lists_fail := True\<rparr>)
     (db_with_list ''X'')
     (Inr (json_doc ''koffan'' [one_item_list ''X'' ''S'' ''milk''] [])) ''skip'' ''copy'')))) =
     [''X'', ''X''] \<and>
   fst (importCSV (ascii_env\<lparr>lists_fail := True\<rparr>) (db_with_list ''X'')
     (Inr [csv_header, csv_row ''X'' ''S'' ''milk'']) ''skip'' ''copy'') =
     Response 200 (ImportCsvSummary 1 1 0 0) \<and>
   map list_name (list_rows (tabs (snd (importCSV (ascii_env\<lparr>lists_fail := True\<rparr>)
     (db_with_list ''X'')
     (Inr [csv_header, csv_row ''X'' ''S'' ''milk'']) ''skip'' ''copy'')))) = [''X'', ''X''] \<and>
   importJSON ascii_env (db_with_list (replicate 107 CHR ''a''))
     (Inr (json_doc ''koffan'' [one_item_list (replicate 107 CHR ''a'') ''S'' ''milk''] []))
     ''skip'' ''copy'' =
     (Response 200 (ImportJsonSummary 0 0 0 0 0), db_with_list (replicate 107 CHR ''a'')) \<and>
   fst (importCSV ascii_env (db_with_list (replicate 107 CHR ''a''))
     (Inr [csv_header, csv_row (replicate 107 CHR ''a'') ''S'' ''milk'']) ''skip'' ''copy'') =
     Response 200 (ImportCsvSummary 1 1 0 0) \<and>
   map list_name (list_rows (tabs (snd (importCSV ascii_env
     (db_with_list (replicate 107 CHR ''a''))
     (Inr [csv_header, csv_row (replicate 107 CHR ''a'') ''S'' ''milk''])
     ''skip'' ''copy'')))) = [replicate 107 CHR ''a'', replicate 100 CHR ''a''] \<and>
   fst (importCSV ascii_env (db_with_list (replicate 100 CHR ''a''))
     (Inr [csv_header, csv_row (replicate 101 CHR ''a'') ''S'' ''milk'',
           csv_row (replicate 101 CHR ''a'') ''S'' ''eggs'']) ''skip'' ''copy'') =
     Response 200 (ImportCsvSummary 0 0 0 2) \<and>
   fst (importCSV ascii_env (db_with_list (replicate 100 CHR ''a''))
     (Inr [csv_header, csv_row (replicate 101 CHR ''a'') ''S'' ''milk'',
           csv_row (replicate 100 CHR ''a'') ''S'' ''eggs'']) ''skip'' ''copy'') =
     Response 200 (ImportCsvSummary 0 0 0 1) \<and>
   fst (importCSV ascii_env (db_with_list (replicate 100 CHR ''a''))
     (Inr [csv_header, csv_row (replicate 101 CHR ''a'') ''S'' ''milk'']) ''skip'' ''copy'') =
     Response 200 (ImportCsvSummary 0 0 0 1) \<and>
   map list_name (list_rows (tabs (snd (importJSON ascii_env
     (db_with_list (replicate 100 CHR ''a''))
     (Inr (json_doc ''koffan'' [one_item_list (replicate 100 CHR ''a'') ''S'' ''milk''] []))
     ''copy'' ''copy'')))) = [replicate 100 CHR ''a'', replicate 100 CHR ''a'' @ '' (copy)''] \<and>
   length (replicate 100 CHR ''a'' @ '' (copy)'') = 107"
proof -
  let ?E = "ascii_env\<lparr>lists_fail := True\<rparr>"
  have unread_json: "importJSON ?E (db_with_list ''X'')
     (Inr (json_doc ''koffan'' [one_item_list ''X'' ''S'' ''milk''] [])) ''skip'' ''copy'' =
     (Response 200 (ImportJsonSummary 1 1 0 0 0),
      (db_with_list ''X'')\<lparr>tabs := \<lparr>list_rows = [\<lparr>list_id = 1, list_name = ''X'',
           list_icon = default_icon, list_is_active = True\<rparr>,
           \<lparr>list_id = 2, list_name = ''X'', list_icon = ''*'', list_is_active = False\<rparr>],
         section_rows = [\<lparr>section_id = 3, section_list_id = 2, section_name = ''S'',
           section_sort_order = 0\<rparr>],
         item_rows = [\<lparr>item_id = 4, item_section_id = 3, item_name = ''milk'',
           item_description = '''', item_completed = False, item_uncertain = False,
           item_sort_order = 0\<rparr>],
         history_rows = [], next_id = 5\<rparr>\<rparr>)"
    by (simp add: json_import db_calls limits fixtures ascii_env_def ascii_lower_def Let_def)
  have unread_csv: "importCSV ?E (db_with_list ''X'')
     (Inr [csv_header, csv_row ''X'' ''S'' ''milk'']) ''skip'' ''copy'' =
     (Response 200 (ImportCsvSummary 1 1 0 0),
      (db_with_list ''X'')\<lparr>tabs := \<lparr>list_rows = [\<lparr>list_id = 1, list_name = ''X'',
           list_icon = default_icon, list_is_active = True\<rparr>,
           \<lparr>list_id = 2, list_name = ''X'', list_icon = default_icon,
            list_is_active = False\<rparr>],
         section_rows = [\<lparr>section_id = 3, section_list_id = 2, section_name = ''S'',
           section_sort_order = 0\<rparr>],
         item_rows = [\<lparr>item_id = 4, item_section_id = 3, item_name = ''milk'',
           item_description = '''', item_completed = False, item_uncertain = False,
           item_sort_order = 0\<rparr>],
         history_rows = [], next_id = 5\<rparr>\<rparr>)"
    by (simp add: csv_import db_calls limits fixtures csv_row_def ascii Let_def)
  have long_json: "importJSON ascii_env (db_with_list (replicate 107 CHR ''a''))
     (Inr (json_doc ''koffan'' [one_item_list (replicate 107 CHR ''a'') ''S'' ''milk''] []))
     ''skip'' ''copy'' =
     (Response 200 (ImportJsonSummary 0 0 0 0 0), db_with_list (replicate 107 CHR ''a''))"
    by (simp add: json_import db_calls limits fixtures ascii_env_def Let_def
          replicate_a_not_reserved)
  have long_csv: "importCSV ascii_env (db_with_list (replicate 107 CHR ''a''))
     (Inr [csv_header, csv_row (replicate 107 CHR ''a'') ''S'' ''milk'']) ''skip'' ''copy'' =
     (Response 200 (ImportCsvSummary 1 1 0 0),
      (db_with_list (replicate 107 CHR ''a''))\<lparr>tabs := \<lparr>list_rows = [\<lparr>list_id = 1,
           list_name = replicate 107 CHR ''a'', list_icon = default_icon,
           list_is_active = True\<rparr>,
           \<lparr>list_id = 2, list_name = replicate 100 CHR ''a'', list_icon = default_icon,
            list_is_active = False\<rparr>],
         section_rows = [\<lparr>section_id = 3, section_list_id = 2, section_name = ''S'',
           section_sort_order = 0\<rparr>],
         item_rows = [\<lparr>item_id = 4, item_section_id = 3, item_name = ''milk'',
           item_description = '''', item_completed = False, item_uncertain = False,
           item_sort_order = 0\<rparr>],
         history_rows = [], next_id = 5\<rparr>\<rparr>)"
    by (simp add: csv_import db_calls limits fixtures csv_row_def ascii_env_def
          ascii_replicate_a replicate_a_not_reserved ascii_trim_def ascii_space_def
          ascii_lower_def Let_def)
  have twice: "fst (importCSV ascii_env (db_with_list (replicate 100 CHR ''a''))
     (Inr [csv_header, csv_row (replicate 101 CHR ''a'') ''S'' ''milk'',
           csv_row (replicate 101 CHR ''a'') ''S'' ''eggs'']) ''skip'' ''copy'') =
     Response 200 (ImportCsvSummary 0 0 0 2)"
    by (simp add: csv_import db_calls limits fixtures csv_row_def ascii_env_def
          ascii_replicate_a replicate_a_not_reserved ascii_trim_def ascii_space_def
          ascii_lower_def Let_def)
  have uncounted: "fst (importCSV ascii_env (db_with_list (replicate 100 CHR ''a''))
     (Inr [csv_header, csv_row (replicate 101 CHR ''a'') ''S'' ''milk'',
           csv_row (replicate 100 CHR ''a'') ''S'' ''eggs'']) ''skip'' ''copy'') =
     Response 200 (ImportCsvSummary 0 0 0 1)"
    "fst (importCSV ascii_env (db_with_list (replicate 100 CHR ''a''))
     (Inr [csv_header, csv_row (replicate 101 CHR ''a'') ''S'' ''milk'']) ''skip'' ''copy'') =
     Response 200 (ImportCsvSummary 0 0 0 1)"
    by (simp_all add: csv_import db_calls limits fixtures csv_row_def ascii_env_def
          ascii_replicate_a replicate_a_not_reserved ascii_trim_def ascii_space_def
          ascii_lower_def Let_def)
  have minted: "map list_name (list_rows (tabs (snd (importJSON ascii_env
     (db_with_list (replicate 100 CHR ''a''))
     (Inr (json_doc ''koffan'' [one_item_list (replicate 100 CHR ''a'') ''S'' ''milk''] []))
     ''copy'' ''copy'')))) = [replicate 100 CHR ''a'', replicate 100 CHR ''a'' @ '' (copy)'']"
    by (simp add: json_import db_calls limits fixtures ascii_env_def Let_def
          replicate_a_not_reserved ascii_replicate_a ascii_lower_def
          findUniqueName_def plain_candidate_def)
  show ?thesis
    by (simp add: unread_json unread_csv long_json long_csv twice uncounted minted)
qed

text \<open>
  Claim C6, at an input where the code departs from it. The store holds a list \<open>X\<close>; the
  table has two data rows for the list \<open>X\<close> and the section \<open>S\<close>; the mode is \<open>copy\<close>. The
  first row creates the list \<open>X (copy)\<close> and enters it into \<open>createdLists\<close> under the key of
  the new name, so the second row does not find a list created for \<open>x\<close>: it collides again
  and creates a second list, \<open>X (copy 2)\<close>, with a section \<open>S\<close> of its own. The two rows end
  up in two lists and two sections. It is so for rows of four columns, as the loop accepts
  them, and for rows of all seven columns, as the reader passes them on under this header.
\<close>

theorem importCSV_copy_splits_rows_of_one_list:
  "fst (importCSV ascii_env (db_with_list ''X'')
     (Inr [csv_header, [''X'', '''', ''S'', ''milk''], [''X'', '''', ''S'', ''eggs'']])
     ''copy'' ''copy'') = Response 200 (ImportCsvSummary 2 2 0 0) \<and>
   map (\<lambda>r. (list_id r, list_name r)) (list_rows (tabs (snd
     (importCSV ascii_env (db_with_list ''X'')
        (Inr [csv_header, [''X'', '''', ''S'', ''milk''], [''X'', '''', ''S'', ''eggs'']])
        ''copy'' ''copy'')))) = [(1, ''X''), (2, ''X (copy)''), (5, ''X (copy 2)'')] \<and>
   map (\<lambda>r. (section_id r, section_list_id r, section_name r)) (section_rows (tabs (snd
     (importCSV ascii_env (db_with_list ''X'')
        (Inr [csv_header, [''X'', '''', ''S'', ''milk''], [''X'', '''', ''S'', ''eggs'']])
        ''copy'' ''copy'')))) = [(3, 2, ''S''), (6, 5, ''S'')] \<and>
   map (\<lambda>r. (item_section_id r, item_name r)) (item_rows (tabs (snd
     (importCSV ascii_env (db_with_list ''X'')
        (Inr [csv_header, [''X'', '''', ''S'', ''milk''], [''X'', '''', ''S'', ''eggs'']])
        ''copy'' ''copy'')))) = [(3, ''milk''), (6, ''eggs'')] \<and>
   fst (importCSV ascii_env (db_with_list ''X'')
     (Inr [csv_header, csv_row ''X'' ''S'' ''milk'', csv_row ''X'' ''S'' ''eggs''])
     ''copy'' ''copy'') = Response 200 (ImportCsvSummary 2 2 0 0) \<and>
   map list_name (list_rows (tabs (snd
     (importCSV ascii_env (db_with_list ''X'')
        (Inr [csv_header, csv_row ''X'' ''S'' ''milk'', csv_row ''X'' ''S'' ''eggs''])
        ''copy'' ''copy'')))) = [''X'', ''X (copy)'', ''X (copy 2)''] \<and>
   map section_name (section_rows (tabs (snd
     (importCSV ascii_env (db_with_list ''X'')
        (Inr [csv_header, csv_row ''X'' ''S'' ''milk'', csv_row ''X'' ''S'' ''eggs''])
        ''copy'' ''copy'')))) = [''S'', ''S''] \<and>
   map item_name (item_rows (tabs (snd
     (importCSV ascii_env (db_with_list ''X'')
        (Inr [csv_header, csv_row ''X'' ''S'' ''milk'', csv_row ''X'' ''S'' ''eggs''])
        ''copy'' ''copy'')))) = [''milk'', ''eggs'']"
  by (simp add: csv_import db_calls limits fixtures csv_row_def ascii Let_def
        findUniqueName_def plain_candidate_def numbered_candidate_def Itoa.simps
        numbered_loop.simps [of _ _ _ _ 2])

section \<open>What a failed import leaves behind\<close>

lemma tx_calls_keep_db:
  "CreateListTx E s n i = (r1, s1) \<Longrightarrow> db s1 = db s"
  "CreateSectionForListTx E s l n ord = (r2, s1) \<Longrightarrow> db s1 = db s"
  "CreateItemTx E s sid n ds ord = (r3, s1) \<Longrightarrow> db s1 = db s"
  "Exec_delete_list E s i' = (ok, s1) \<Longrightarrow> db s1 = db s"
  "SaveItemHistoryWithCountTx E s n sec c = (ok, s1) \<Longrightarrow> db s1 = db s"
  by (auto simp: db_calls Let_def split: if_splits)

lemma tx_updates_keep_db:
  "db (Exec_set_list_active E s i') = db s"
  "db (Exec_set_item_completed E s i') = db s"
  "db (Exec_set_item_uncertain E s i') = db s"
  "db (snd (Exec_delete_list E s i')) = db s"
  by (simp_all add: db_calls Let_def)

lemma create_csv_item_db: "db (sess (create_csv_item E v sec n ds c u)) = db (sess v)"
proof (cases "CreateItemTx E (sess v) (section_id sec) n ds (itemOrders v (section_id sec))")
  case (Pair r s1)
  then have "db s1 = db (sess v)" by (rule tx_calls_keep_db(3))
  with Pair show ?thesis
    by (cases r) (simp_all add: create_csv_item_def Let_def tx_updates_keep_db)
qed

lemma import_history_row_db: "db (sess (import_history_row E v row)) = db (sess v)"
proof (cases "TrimSpace E (row ! 2) = '''' \<or> \<not> length row > 2")
  case True
  then show ?thesis by (auto simp: import_history_row_def)
next
  case False
  define c where "c = (if length row > 4 then
                     (case Atoi E (TrimSpace E (row ! 4)) of
                        Some n \<Rightarrow> if n > 0 then n else 1
                      | None \<Rightarrow> 1)
                   else 1)"
  define sec where "sec = GetSectionIDByNameTx (sess v)
                      (if length row > 3 then TrimSpace E (row ! 3) else '''')"
  obtain ok s1 where r: "SaveItemHistoryWithCountTx E (sess v) (TrimSpace E (row ! 2)) sec c
                          = (ok, s1)"
    by (cases "SaveItemHistoryWithCountTx E (sess v) (TrimSpace E (row ! 2)) sec c")
  then have "db s1 = db (sess v)" by (rule tx_calls_keep_db(5))
  with r False show ?thesis
    by (simp add: import_history_row_def Let_def c_def sec_def)
qed

lemma get_or_create_section_db:
  "db (sess (fst (get_or_create_section E d v l lk sn))) = db (sess v)"
proof -
  define name where "name =
     (if length (if sn = '''' then d else sn) > MaxSectionNameLength
      then take MaxSectionNameLength (if sn = '''' then d else sn)
      else (if sn = '''' then d else sn))"
  obtain r s1 where c: "CreateSectionForListTx E (sess v) (list_id l) name (sectionOrders v lk)
                          = (r, s1)"
    by (cases "CreateSectionForListTx E (sess v) (list_id l) name (sectionOrders v lk)")
  then have "db s1 = db (sess v)" by (rule tx_calls_keep_db(2))
  with c show ?thesis
    by (cases r; cases "createdSections v lk (ToLower E name)")
       (simp_all add: get_or_create_section_def Let_def name_def)
qed

lemma create_csv_list_db:
  "db (sess (fst (create_csv_list E v ln lk icon))) = db (sess v)"
proof (cases "CreateListTx E (sess v) ln icon")
  case (Pair r s1)
  then have "db s1 = db (sess v)" by (rule tx_calls_keep_db(1))
  with Pair show ?thesis
    by (cases r) (simp_all add: create_csv_list_def)
qed

lemma get_or_create_list_db:
  "db (sess (fst (get_or_create_list E cr sfx v ln lk icon))) = db (sess v)"
proof (cases "createdLists v lk")
  case (Some l)
  then show ?thesis by (simp add: get_or_create_list_def)
next
  case None
  show ?thesis
  proof (cases "existingNames v lk")
    case free: None
    with None show ?thesis by (simp add: get_or_create_list_def create_csv_list_db)
  next
    case (Some i)
    obtain name names where f: "findUniqueName E ln sfx (existingNames v) = (name, names)"
      by (cases "findUniqueName E ln sfx (existingNames v)")
    from None Some f show ?thesis
      by (simp add: get_or_create_list_def create_csv_list_db tx_updates_keep_db)
  qed
qed

lemma place_row_db:
  "db (sess (place_row E cr sfx d v ln lk icon sn n ds c u)) = db (sess v)"
  by (cases rule: place_row_cases [of E cr sfx v ln lk icon d sn n ds c u])
     (simp_all add: get_or_create_list_db get_or_create_section_db create_csv_item_db)


lemma import_row_db:
  "db (sess (import_row E cr sfx d v row)) = db (sess v)"
proof (cases "row_list_name E row")
  case None
  from import_row_nondata [OF this, of cr sfx d v] show ?thesis
    by (auto simp: import_history_row_db)
next
  case (Some n)
  show ?thesis
  proof (cases "skippedListNames v (ToLower E n)")
    case True
    with Some show ?thesis by (simp add: import_row_skipped)
  next
    case False
    from import_row_data [OF Some False, of cr sfx d] show ?thesis
      by (auto simp: place_row_db)
  qed
qed

lemma csv_rows_db: "db (sess (csv_rows E cr sfx v rows)) = db (sess v)"
  unfolding csv_rows_def by (induction rows arbitrary: v) (simp_all add: import_row_db)

lemma import_item_db: "db (fst (import_item E sid st it)) = db (fst st)"
proof -
  obtain s ord n where st: "st = (s, ord, n)" by (cases st)
  define name where "name = (if length (ei_Name it) > MaxItemNameLength
                             then take MaxItemNameLength (ei_Name it) else ei_Name it)"
  define ds where "ds = (if length (ei_Description it) > MaxDescriptionLength
                         then take MaxDescriptionLength (ei_Description it)
                         else ei_Description it)"
  obtain r s1 where c: "CreateItemTx E s sid name ds ord = (r, s1)"
    by (cases "CreateItemTx E s sid name ds ord")
  then have "db s1 = db s" by (rule tx_calls_keep_db(3))
  with c show ?thesis
    by (cases r) (simp_all add: import_item_def st Let_def name_def ds_def tx_updates_keep_db)
qed

lemma import_items_db: "db (fst (foldl (import_item E sid) st its)) = db (fst st)"
  by (induction its arbitrary: st) (simp_all add: import_item_db)

lemma import_section_db: "db (fst (import_section E lid st sec)) = db (fst st)"
proof -
  obtain s ord n where st: "st = (s, ord, n)" by (cases st)
  define name where "name = (if length (es_Name sec) > MaxSectionNameLength
                             then take MaxSectionNameLength (es_Name sec) else es_Name sec)"
  obtain r s1 where c: "CreateSectionForListTx E s lid name ord = (r, s1)"
    by (cases "CreateSectionForListTx E s lid name ord")
  then have s1: "db s1 = db s" by (rule tx_calls_keep_db(2))
  show ?thesis
  proof (cases r)
    case None
    with c s1 show ?thesis by (simp add: import_section_def st Let_def name_def)
  next
    case (Some row)
    have "db (fst (foldl (import_item E (section_id row)) (s1, 0, n) (es_Items sec))) = db s"
      using s1 by (simp add: import_items_db)
    with c Some show ?thesis
      by (auto simp: import_section_def st Let_def name_def split: prod.splits)
  qed
qed

lemma import_sections_db: "db (fst (foldl (import_section E lid) st secs)) = db (fst st)"
  by (induction secs arbitrary: st) (simp_all add: import_section_db)

lemma create_list_db: "db (sess (create_list E v name l)) = db (sess v)"
proof (cases "CreateListTx E (sess v) name (el_Icon l)")
  case (Pair r s1)
  then have s1: "db s1 = db (sess v)" by (rule tx_calls_keep_db(1))
  show ?thesis
  proof (cases r)
    case None
    with Pair s1 show ?thesis by (simp add: create_list_def)
  next
    case (Some row)
    have fold: "db (fst (foldl (import_section E (list_id row)) (s2, 0, importedItems v)
                 (el_Sections l))) = db (sess v)" if "db s2 = db (sess v)" for s2
      using that by (simp add: import_sections_db)
    show ?thesis
    proof (cases "el_IsActive l")
      case True
      with Pair Some fold [of "Exec_set_list_active E s1 (list_id row)"] s1 show ?thesis
        by (auto simp: create_list_def Let_def tx_updates_keep_db split: prod.splits)
    next
      case False
      with Pair Some fold [of s1] s1 show ?thesis
        by (auto simp: create_list_def Let_def split: prod.splits)
    qed
  qed
qed

lemma import_list_db: "db (sess (import_list E cr sfx v l)) = db (sess v)"
proof (cases "existingNames v (ToLower E (el_Name l))")
  case None
  then show ?thesis by (simp add: import_list_def create_list_db)
next
  case (Some i)
  obtain ok s1 where d: "Exec_delete_list E (sess v) i = (ok, s1)"
    by (cases "Exec_delete_list E (sess v) i")
  then have "db s1 = db (sess v)" by (rule tx_calls_keep_db(4))
  moreover obtain name names where "findUniqueName E (el_Name l) sfx (existingNames v)
                                      = (name, names)"
    by (cases "findUniqueName E (el_Name l) sfx (existingNames v)")
  ultimately show ?thesis
    using Some d by (cases ok) (simp_all add: import_list_def create_list_db)
qed

lemma import_lists_db: "db (sess (foldl (import_list E cr sfx) v ls)) = db (sess v)"
  by (induction ls arbitrary: v) (simp_all add: import_list_db)

lemma import_history_db: "db (sess (import_history E v h)) = db (sess v)"
proof -
  define c where "c = (if eh_UsageCount h < 1 then 1 else eh_UsageCount h)"
  obtain ok s1 where r: "SaveItemHistoryWithCountTx E (sess v) (eh_Name h)
                           (GetSectionIDByNameTx (sess v) (eh_LastSection h)) c = (ok, s1)"
    by (cases "SaveItemHistoryWithCountTx E (sess v) (eh_Name h)
                 (GetSectionIDByNameTx (sess v) (eh_LastSection h)) c")
  then have "db s1 = db (sess v)" by (rule tx_calls_keep_db(5))
  with r show ?thesis
    by (simp add: import_history_def Let_def c_def)
qed

lemma import_histories_db: "db (sess (foldl (import_history E) v hs)) = db (sess v)"
  by (induction hs arbitrary: v) (simp_all add: import_history_db)

lemma direct_calls_keep_tabs:
  "tabs (db (snd (CreateTemplate E s n ds))) = tabs (db s)"
  "tabs (db (AddTemplateItem E s t sn n ds)) = tabs (db s)"
  by (simp_all add: db_calls Let_def)

lemma add_template_items_tabs:
  "tabs (db (foldl (\<lambda>s item. AddTemplateItem E s t (eti_SectionName item) (eti_Name item)
                (eti_Description item)) s items)) = tabs (db s)"
  by (induction items arbitrary: s) (simp_all add: direct_calls_keep_tabs)

lemma import_template_tabs: "tabs (db (sess (import_template E v t))) = tabs (db (sess v))"
proof (cases "CreateTemplate E (sess v) (et_Name t) (et_Description t)")
  case (Pair r s1)
  with direct_calls_keep_tabs(1) [of E "sess v" "et_Name t" "et_Description t"]
  have "tabs (db s1) = tabs (db (sess v))" by simp
  with Pair show ?thesis
    by (cases r) (simp_all add: import_template_def add_template_items_tabs)
qed

lemma import_templates_tabs:
  "tabs (db (sess (foldl (import_template E) v ts))) = tabs (db (sess v))"
  by (induction ts arbitrary: v) (simp_all add: import_template_tabs)

lemma json_loops_tabs:
  "tabs (db (sess (json_loops E cr sfx d v))) = tabs (db (sess v))"
  by (simp add: json_loops_def import_histories_db import_templates_tabs import_lists_db)

lemma json_loops_db:
  "Templates (Data d) = [] \<Longrightarrow> db (sess (json_loops E cr sfx d v)) = db (sess v)"
  by (simp add: json_loops_def import_histories_db import_lists_db)

text \<open>
  The CSV import is all or nothing: every statement it issues goes through the transaction,
  so when the transaction cannot be started or its commit fails, the store is the one the
  request found, whatever the rows were and whichever statements failed on the way.
\<close>

theorem importCSV_failure_keeps_store:
  "begin_fails E \<or> commit_fails E \<Longrightarrow> snd (importCSV E d0 parsed cr sfx) = d0"
  by (cases parsed)
     (auto simp: importCSV_def Let_def Rollback_def csv_rows_db csv_start_def Begin_def)

theorem importCSV_failure_keeps_store_witness:
  "commit_fails (ascii_env\<lparr>commit_fails := True\<rparr>) \<and>
   importCSV (ascii_env\<lparr>commit_fails := True\<rparr>) (db_with_list ''X'')
     (Inr [csv_header, csv_row ''Y'' ''S'' ''milk'']) ''replace'' ''copy'' =
     (Response 500 (ErrorJson ''Failed to commit import''), db_with_list ''X'')"
proof -
  have "fst (importCSV (ascii_env\<lparr>commit_fails := True\<rparr>) (db_with_list ''X'')
          (Inr [csv_header, csv_row ''Y'' ''S'' ''milk'']) ''replace'' ''copy'') =
        Response 500 (ErrorJson ''Failed to commit import'')"
    by (simp add: importCSV_def ascii_env_def Let_def)
  then show ?thesis
    using importCSV_failure_keeps_store
      [of "ascii_env\<lparr>commit_fails := True\<rparr>" "db_with_list ''X''"
          "Inr [csv_header, csv_row ''Y'' ''S'' ''milk'']" "''replace''" "''copy''"]
    by (simp add: prod_eq_iff)
qed

text \<open>
  The JSON import is all or nothing for the lists, sections, items and history it writes:
  after a failed start or a failed commit those tables are the ones the request found. For a
  document without templates the whole store is.
\<close>

theorem importJSON_failure_keeps_tables:
  "begin_fails E \<or> commit_fails E \<Longrightarrow>
     tabs (snd (importJSON E d0 decoded cr sfx)) = tabs d0 \<and>
     (case decoded of
        Inl err \<Rightarrow> True
      | Inr d \<Rightarrow> Templates (Data d) \<noteq> [] \<or> snd (importJSON E d0 decoded cr sfx) = d0)"
  by (cases decoded)
     (auto simp: importJSON_def Let_def Rollback_def json_loops_tabs json_loops_db
        json_start_def Begin_def)

theorem importJSON_failure_keeps_tables_witness:
  "commit_fails (ascii_env\<lparr>commit_fails := True\<rparr>) \<and>
   tabs (snd (importJSON (ascii_env\<lparr>commit_fails := True\<rparr>) empty_db
     (Inr (json_doc ''koffan'' [one_item_list ''L'' ''S'' ''milk'']
        [\<lparr>et_Name = ''Weekly'', et_Description = '''', et_Items = []\<rparr>])) ''skip'' ''copy''))
     = tabs empty_db \<and>
   importJSON (ascii_env\<lparr>commit_fails := True\<rparr>) empty_db
     (Inr (json_doc ''koffan'' [one_item_list ''L'' ''S'' ''milk''] [])) ''skip'' ''copy'' =
     (Response 500 (ErrorJson ''Failed to commit import''), empty_db)"
proof -
  let ?E = "ascii_env\<lparr>commit_fails := True\<rparr>"
  have fails: "begin_fails ?E \<or> commit_fails ?E" by simp
  have resp: "fst (importJSON ?E empty_db
          (Inr (json_doc ''koffan'' [one_item_list ''L'' ''S'' ''milk''] [])) ''skip'' ''copy'') =
        Response 500 (ErrorJson ''Failed to commit import'')"
    by (simp add: importJSON_def ascii_env_def Let_def)
  have none: "Templates (Data (json_doc ''koffan'' ls [])) = []" for ls
    by (simp add: json_doc_def)
  show ?thesis
    using importJSON_failure_keeps_tables [OF fails, of empty_db
        "Inr (json_doc ''koffan'' [one_item_list ''L'' ''S'' ''milk'']
           [\<lparr>et_Name = ''Weekly'', et_Description = '''', et_Items = []\<rparr>])" "''skip''" "''copy''"]
      importJSON_failure_keeps_tables [OF fails, of empty_db
        "Inr (json_doc ''koffan'' [one_item_list ''L'' ''S'' ''milk''] [])" "''skip''" "''copy''"]
      resp
    by (simp add: none prod_eq_iff)
qed

text \<open>
  No failure of a statement ends an import: once the upload is read and the transaction is
  open, the handlers answer with the summary whenever the commit succeeds, whichever
  statements failed on the way.
\<close>

theorem statement_failures_never_abort:
  "\<not> begin_fails E \<and> \<not> commit_fails E \<Longrightarrow>
     (\<exists>ls its ts hs sk.
        fst (importJSON E d0 (Inr d) cr sfx) = Response 200 (ImportJsonSummary ls its ts hs sk)) \<and>
     (length recs < 2 \<or>
      (\<exists>ls its hs sk.
        fst (importCSV E d0 (Inr recs) cr sfx) = Response 200 (ImportCsvSummary ls its hs sk)))"
  by (simp add: importJSON_def importCSV_def Let_def)

theorem statement_failures_never_abort_witness:
  "fst (importJSON (ascii_env\<lparr>call_fails := (\<lambda>n. True)\<rparr>) empty_db
     (Inr (json_doc ''koffan'' [one_item_list ''L'' ''S'' ''milk''] [])) ''skip'' ''copy'') =
     Response 200 (ImportJsonSummary 0 0 0 0 0) \<and>
   fst (importCSV (ascii_env\<lparr>call_fails := (\<lambda>n. True)\<rparr>) empty_db
     (Inr [csv_header, csv_row ''Y'' ''S'' ''milk'']) ''skip'' ''copy'') =
     Response 200 (ImportCsvSummary 0 0 0 0)"
proof -
  let ?E = "ascii_env\<lparr>call_fails := (\<lambda>n. True)\<rparr>"
  have ok: "\<not> begin_fails ?E \<and> \<not> commit_fails ?E"
    by (simp add: ascii_env_def)
  have json: "fst (importJSON ?E empty_db
     (Inr (json_doc ''koffan'' [one_item_list ''L'' ''S'' ''milk''] [])) ''skip'' ''copy'') =
     Response 200 (ImportJsonSummary 0 0 0 0 0)"
    by (simp add: json_import db_calls limits fixtures ascii_env_def Let_def)
  have csv: "fst (importCSV ?E empty_db
     (Inr [csv_header, csv_row ''Y'' ''S'' ''milk'']) ''skip'' ''copy'') =
     Response 200 (ImportCsvSummary 0 0 0 0)"
    by (simp add: csv_import db_calls limits fixtures csv_row_def ascii Let_def)
  show ?thesis
    using statement_failures_never_abort [OF ok, of empty_db
        "json_doc ''koffan'' [one_item_list ''L'' ''S'' ''milk''] []" "''skip''" "''copy''"
        "[csv_header, csv_row ''Y'' ''S'' ''milk'']"]
      json csv
    by simp
qed

end
